theory Spec2Isabelle
  imports Main "HOL-Library.Word" "HOL-Library.Multiset" "HOL-Library.Char_ord"
begin

section \<open>Go string primitives used by the policy authority\<close>

text \<open>
  Go strings are byte sequences; \<^typ>\<open>string\<close> is a list of 8-bit characters. Every
  separator the policy code passes to the \<open>strings\<close> package is the single byte
  \<open>"."\<close> or \<open>"*"\<close>, so the separator is a \<^typ>\<open>char\<close> here.
\<close>

text \<open>\<open>strings.Split(s, sep)\<close>: the pieces of \<open>s\<close> between the separators; never empty.\<close>

fun Split :: "string \<Rightarrow> char \<Rightarrow> string list" where
  "Split [] sep = [[]]"
| "Split (c # cs) sep =
     (if c = sep then [] # Split cs sep
      else (c # hd (Split cs sep)) # tl (Split cs sep))"

text \<open>\<open>strings.SplitN(s, sep, n)\<close> for \<open>n \<ge> 0\<close>: at most \<open>n\<close> pieces, the last one unsplit.\<close>

fun SplitN :: "string \<Rightarrow> char \<Rightarrow> nat \<Rightarrow> string list" where
  "SplitN s sep 0 = []"
| "SplitN s sep (Suc 0) = [s]"
| "SplitN [] sep (Suc (Suc n)) = [[]]"
| "SplitN (c # cs) sep (Suc (Suc n)) =
     (if c = sep then [] # SplitN cs sep (Suc n)
      else (c # hd (SplitN cs sep (Suc (Suc n)))) # tl (SplitN cs sep (Suc (Suc n))))"

text \<open>\<open>strings.Join(elems, sep)\<close>.\<close>

fun Join :: "string list \<Rightarrow> string \<Rightarrow> string" where
  "Join [] sep = []"
| "Join [x] sep = x"
| "Join (x # y # ys) sep = x @ sep @ Join (y # ys) sep"

definition HasPrefix :: "string \<Rightarrow> string \<Rightarrow> bool" where
  "HasPrefix s p = (take (length p) s = p)"

definition HasSuffix :: "string \<Rightarrow> string \<Rightarrow> bool" where
  "HasSuffix s p = (length p \<le> length s \<and> drop (length s - length p) s = p)"

definition TrimPrefix :: "string \<Rightarrow> string \<Rightarrow> string" where
  "TrimPrefix s p = (if HasPrefix s p then drop (length p) s else s)"

text \<open>\<open>strings.Count(s, sub)\<close> for a one-byte \<open>sub\<close>.\<close>

definition Count :: "string \<Rightarrow> char \<Rightarrow> nat" where
  "Count s c = length (filter (\<lambda>x. x = c) s)"

section \<open>Errors\<close>

text \<open>
  Modelled from the spec: the \<open>berrors\<close> package of this repository is not among the
  sources; the spec gives two classes of policy errors, Malformed and Rejected, and
  \<open>berrors.MalformedError\<close> / \<open>berrors.RejectedIdentifierError\<close> build an error of
  the class with the given detail. An error made by \<open>fmt.Errorf\<close> is a plain Go error
  and carries no class; it is kept as its format string and arguments.
\<close>

datatype ErrorType = Malformed | RejectedIdentifier

datatype error =
    BoulderError ErrorType string
  | Errorf string "string list"

definition MalformedError :: "string \<Rightarrow> error" where
  "MalformedError msg = BoulderError Malformed msg"

definition RejectedIdentifierError :: "string \<Rightarrow> error" where
  "RejectedIdentifierError msg = BoulderError RejectedIdentifier msg"

definition errInvalidIdentifier :: error where
  "errInvalidIdentifier = MalformedError ''Invalid identifier type''"
definition errNonPublic :: error where
  "errNonPublic = MalformedError ''Name does not end in a public suffix''"
definition errICANNTLD :: error where
  "errICANNTLD = MalformedError ''Name is an ICANN TLD''"
definition errBlacklisted :: error where
  "errBlacklisted = RejectedIdentifierError ''Policy forbids issuing for name''"
definition errInvalidDNSCharacter :: error where
  "errInvalidDNSCharacter = MalformedError ''Invalid character in DNS name''"
definition errNameTooLong :: error where
  "errNameTooLong = MalformedError ''DNS name too long''"
definition errIPAddress :: error where
  "errIPAddress = MalformedError ''Issuance for IP addresses not supported''"
definition errTooManyLabels :: error where
  "errTooManyLabels = MalformedError ''DNS name has too many labels''"
definition errEmptyName :: error where
  "errEmptyName = MalformedError ''DNS name was empty''"
definition errNameEndsInDot :: error where
  "errNameEndsInDot = MalformedError ''DNS name ends in a period''"
definition errTooFewLabels :: error where
  "errTooFewLabels = MalformedError ''DNS name does not have enough labels''"
definition errLabelTooShort :: error where
  "errLabelTooShort = MalformedError ''DNS label is too short''"
definition errLabelTooLong :: error where
  "errLabelTooLong = MalformedError ''DNS label is too long''"
definition errMalformedIDN :: error where
  "errMalformedIDN = MalformedError ''DNS label contains malformed punycode''"
definition errInvalidRLDH :: error where
  "errInvalidRLDH = RejectedIdentifierError ''DNS name contains a R-LDH label''"
definition errTooManyWildcards :: error where
  "errTooManyWildcards = MalformedError ''DNS name had more than one wildcard''"
definition errMalformedWildcard :: error where
  "errMalformedWildcard = MalformedError ''DNS name had a malformed wildcard label''"
definition errICANNTLDWildcard :: error where
  "errICANNTLDWildcard = MalformedError ''DNS name was a wildcard for an ICANN TLD''"
definition errWildcardNotSupported :: error where
  "errWildcardNotSupported = MalformedError ''Wildcard names not supported''"

text \<open>The two \<open>fmt.Errorf\<close> values of the hostname policy code.\<close>

definition errNotLoaded :: error where
  "errNotLoaded = Errorf ''Hostname policy not yet loaded.'' []"

definition errNoEntries :: error where
  "errNoEntries = Errorf ''No entries in blacklist.'' []"

definition errMalformedExact :: "string \<Rightarrow> error" where
  "errMalformedExact v = Errorf ''Malformed exact blacklist entry, only one label: %q'' [v]"

section \<open>The policy authority and its collaborators\<close>

text \<open>
  A Go \<open>map[K]bool\<close> field is a partial map, or \<open>None\<close> for the nil map.
  \<open>lookup m k\<close> is Go's \<open>m[k]\<close>: \<open>false\<close> on the nil map and on a missing key.
\<close>

type_synonym 'k boolmap = "('k \<rightharpoonup> bool) option"

definition lookup :: "'k boolmap \<Rightarrow> 'k \<Rightarrow> bool" where
  "lookup m k = (case m of None \<Rightarrow> False
                 | Some f \<Rightarrow> (case f k of None \<Rightarrow> False | Some b \<Rightarrow> b))"

text \<open>
  \<open>AuthorityImpl\<close>, without the logger and the two mutexes. \<open>'r\<close> is the state of the
  \<open>math/rand\<close> generator behind \<open>pseudoRNG\<close>. A value of the inner map type of
  \<open>enabledChallengesWhitelist\<close> is \<open>None\<close> for a nil inner map, which is also what
  indexing the outer map gives for a missing key.
\<close>

record 'r AuthorityImpl =
  blacklist :: "string boolmap"
  exactBlacklist :: "string boolmap"
  wildcardExactBlacklist :: "string boolmap"
  enabledChallenges :: "string boolmap"
  enabledChallengesWhitelist :: "(string \<rightharpoonup> (64 word) boolmap) option"
  pseudoRNG :: 'r

record blacklistJSON =
  Blacklist :: "string list"
  ExactBlacklist :: "string list"

text \<open>
  The library functions and feature flags the policy code calls and that are not part of
  its sources are parameters of the model:
  \<^item> \<open>json_Unmarshal\<close>: \<open>json.Unmarshal\<close> into a \<open>blacklistJSON\<close>;
  \<^item> \<open>net_ParseIP\<close>: whether \<open>net.ParseIP\<close> returns a non-nil address;
  \<^item> \<open>idna_ToUnicode\<close>: \<open>idna.ToUnicode\<close>, \<open>None\<close> when it returns an error;
  \<^item> \<open>norm_IsNormalString\<close>: \<open>norm.NFC.IsNormalString\<close>;
  \<^item> \<open>iana_ExtractSuffix\<close>: \<open>iana.ExtractSuffix\<close>, \<open>None\<close> when it returns an error;
  \<^item> \<open>feature_NewAuthorizationSchema\<close>, \<open>feature_TLSSNIRevalidation\<close>: the two
    feature flags read by \<open>ChallengesFor\<close>;
  \<^item> \<open>rand_NewSource\<close>: the generator state \<open>rand.New(rand.NewSource(seed))\<close> starts in;
  \<^item> \<open>rand_Perm\<close>: \<open>(*rand.Rand).Perm(n)\<close>, returning the slice and the next state.
\<close>

record 'r collaborators =
  json_Unmarshal :: "string \<Rightarrow> error + blacklistJSON"
  net_ParseIP :: "string \<Rightarrow> bool"
  idna_ToUnicode :: "string \<Rightarrow> string option"
  norm_IsNormalString :: "string \<Rightarrow> bool"
  iana_ExtractSuffix :: "string \<Rightarrow> string option"
  feature_NewAuthorizationSchema :: bool
  feature_TLSSNIRevalidation :: bool
  rand_NewSource :: "int \<Rightarrow> 'r"
  rand_Perm :: "'r \<Rightarrow> nat \<Rightarrow> nat list \<times> 'r"

text \<open>\<open>New\<close>: no hostname policy and no whitelist yet, generator seeded with 99.\<close>

definition New :: "'r collaborators \<Rightarrow> string boolmap \<Rightarrow> 'r AuthorityImpl" where
  "New env challengeTypes =
     \<lparr> blacklist = None, exactBlacklist = None, wildcardExactBlacklist = None,
       enabledChallenges = challengeTypes, enabledChallengesWhitelist = None,
       pseudoRNG = rand_NewSource env 99 \<rparr>"

section \<open>Loading the hostname policy\<close>

text \<open>The first loop of \<open>loadHostnamePolicy\<close>: every blacklist entry becomes a key.\<close>

fun nameLoop :: "string list \<Rightarrow> (string \<rightharpoonup> bool) \<Rightarrow> (string \<rightharpoonup> bool)" where
  "nameLoop [] nameMap = nameMap"
| "nameLoop (v # vs) nameMap = nameLoop vs (nameMap(v \<mapsto> True))"

text \<open>
  The second loop: each exact entry is recorded, split at its first dot, and its
  remainder recorded as a wildcard base; an entry without a dot ends the load.
\<close>

fun exactLoop :: "string list \<Rightarrow> (string \<rightharpoonup> bool) \<Rightarrow> (string \<rightharpoonup> bool)
                  \<Rightarrow> error + ((string \<rightharpoonup> bool) \<times> (string \<rightharpoonup> bool))" where
  "exactLoop [] exactNameMap wildcardNameMap = Inr (exactNameMap, wildcardNameMap)"
| "exactLoop (v # vs) exactNameMap wildcardNameMap =
     (let exactNameMap' = exactNameMap(v \<mapsto> True);
          parts = SplitN v CHR ''.'' 2
      in if length parts < 2 then Inl (errMalformedExact v)
         else exactLoop vs exactNameMap' (wildcardNameMap(parts ! 1 \<mapsto> True)))"

text \<open>
  \<open>loadHostnamePolicy\<close> returns its error (\<open>None\<close> for \<open>nil\<close>) and the authority
  afterwards. The three fields are assigned only on the last path.
\<close>

definition loadHostnamePolicy ::
  "'r collaborators \<Rightarrow> 'r AuthorityImpl \<Rightarrow> string \<Rightarrow> error option \<times> 'r AuthorityImpl" where
  "loadHostnamePolicy env pa b =
     (case json_Unmarshal env b of
        Inl err \<Rightarrow> (Some err, pa)
      | Inr bl \<Rightarrow>
          if length (Blacklist bl) = 0 then (Some errNoEntries, pa)
          else
            let nameMap = nameLoop (Blacklist bl) Map.empty in
            (case exactLoop (ExactBlacklist bl) Map.empty Map.empty of
               Inl err \<Rightarrow> (Some err, pa)
             | Inr (exactNameMap, wildcardNameMap) \<Rightarrow>
                 (None, pa\<lparr> blacklist := Some nameMap,
                            exactBlacklist := Some exactNameMap,
                            wildcardExactBlacklist := Some wildcardNameMap \<rparr>)))"

section \<open>Reading the hostname policy\<close>

definition checkWildcardHostList :: "'r AuthorityImpl \<Rightarrow> string \<Rightarrow> error option" where
  "checkWildcardHostList pa domain =
     (if blacklist pa = None then Some errNotLoaded
      else if lookup (wildcardExactBlacklist pa) domain then Some errBlacklisted
      else None)"

text \<open>
  The loop of \<open>checkHostLists\<close> over \<open>labels[i:]\<close> for \<open>i = 0, 1, \<dots>\<close>: the argument
  is the remaining slice \<open>labels[i:]\<close>; the result says whether the loop returned
  \<open>errBlacklisted\<close>.
\<close>

fun suffixLoop :: "string boolmap \<Rightarrow> string list \<Rightarrow> bool" where
  "suffixLoop bl [] = False"
| "suffixLoop bl (l # ls) =
     (if lookup bl (Join (l # ls) ''.'') then True else suffixLoop bl ls)"

definition checkHostLists :: "'r AuthorityImpl \<Rightarrow> string \<Rightarrow> error option" where
  "checkHostLists pa domain =
     (if blacklist pa = None then Some errNotLoaded
      else if suffixLoop (blacklist pa) (Split domain CHR ''.'') then Some errBlacklisted
      else if lookup (exactBlacklist pa) domain then Some errBlacklisted
      else None)"

section \<open>Identifier validation\<close>

text \<open>
  Modelled from the spec: the \<open>core\<close> package of this repository is not among the
  sources; an identifier is a tagged value with a type and a value, and the only type is
  the DNS one.
\<close>

record AcmeIdentifier =
  Type :: string
  Value :: string

definition IdentifierDNS :: string where
  "IdentifierDNS = ''dns''"

definition maxLabels :: nat where
  "maxLabels = 10"

definition maxLabelLength :: nat where
  "maxLabelLength = 63"

definition maxDNSIdentifierLength :: nat where
  "maxDNSIdentifierLength = 230"

definition isDNSCharacter :: "char \<Rightarrow> bool" where
  "isDNSCharacter ch =
     ((CHR ''a'' \<le> ch \<and> ch \<le> CHR ''z'') \<or>
      (CHR ''A'' \<le> ch \<and> ch \<le> CHR ''Z'') \<or>
      (CHR ''0'' \<le> ch \<and> ch \<le> CHR ''9'') \<or>
      ch = CHR ''.'' \<or> ch = CHR ''-'')"

text \<open>The character class \<open>[a-z0-9]\<close> of the three regular expressions.\<close>

definition lowerAlnum :: "char \<Rightarrow> bool" where
  "lowerAlnum ch =
     ((CHR ''a'' \<le> ch \<and> ch \<le> CHR ''z'') \<or> (CHR ''0'' \<le> ch \<and> ch \<le> CHR ''9''))"

text \<open>\<open>dnsLabelRegexp.MatchString\<close>, for \<open>^[a-z0-9][a-z0-9-]{0,62}$\<close>.\<close>

definition dnsLabelRegexp :: "string \<Rightarrow> bool" where
  "dnsLabelRegexp label =
     (case label of
        [] \<Rightarrow> False
      | c # cs \<Rightarrow> lowerAlnum c \<and> length cs \<le> 62 \<and>
                  list_all (\<lambda>x. lowerAlnum x \<or> x = CHR ''-'') cs)"

text \<open>\<open>punycodeRegexp.MatchString\<close>, for \<open>^xn--\<close>.\<close>

definition punycodeRegexp :: "string \<Rightarrow> bool" where
  "punycodeRegexp label = HasPrefix label ''xn--''"

text \<open>\<open>idnReservedRegexp.MatchString\<close>, for \<open>^[a-z0-9]{2}--\<close>.\<close>

definition idnReservedRegexp :: "string \<Rightarrow> bool" where
  "idnReservedRegexp label =
     (case label of
        a # b # c # d # _ \<Rightarrow> lowerAlnum a \<and> lowerAlnum b \<and> c = CHR ''-'' \<and> d = CHR ''-''
      | _ \<Rightarrow> False)"

text \<open>The loop of \<open>WillingToIssue\<close> over the labels; \<open>None\<close> when it runs to its end.\<close>

fun labelLoop :: "'r collaborators \<Rightarrow> string list \<Rightarrow> error option" where
  "labelLoop env [] = None"
| "labelLoop env (label # labels) =
     (if length label < 1 then Some errLabelTooShort
      else if length label > maxLabelLength then Some errLabelTooLong
      else if \<not> dnsLabelRegexp label then Some errInvalidDNSCharacter
      else if label ! (length label - 1) = CHR ''-'' then Some errInvalidDNSCharacter
      else if punycodeRegexp label then
        (case idna_ToUnicode env label of
           None \<Rightarrow> Some errMalformedIDN
         | Some ulabel \<Rightarrow>
             if \<not> norm_IsNormalString env ulabel then Some errMalformedIDN
             else labelLoop env labels)
      else if idnReservedRegexp label then Some errInvalidRLDH
      else labelLoop env labels)"

definition WillingToIssue ::
  "'r collaborators \<Rightarrow> 'r AuthorityImpl \<Rightarrow> AcmeIdentifier \<Rightarrow> error option" where
  "WillingToIssue env pa ident =
     (if Type ident \<noteq> IdentifierDNS then Some errInvalidIdentifier
      else
        let domain = Value ident in
        if domain = [] then Some errEmptyName
        else if HasPrefix domain ''*.'' then Some errWildcardNotSupported
        else if \<not> list_all isDNSCharacter domain then Some errInvalidDNSCharacter
        else if length domain > maxDNSIdentifierLength then Some errNameTooLong
        else if net_ParseIP env domain then Some errIPAddress
        else if HasSuffix domain ''.'' then Some errNameEndsInDot
        else
          let labels = Split domain CHR ''.'' in
          if length labels > maxLabels then Some errTooManyLabels
          else if length labels < 2 then Some errTooFewLabels
          else
            (case labelLoop env labels of
               Some err \<Rightarrow> Some err
             | None \<Rightarrow>
                 (case iana_ExtractSuffix env domain of
                    None \<Rightarrow> Some errNonPublic
                  | Some icannTLD \<Rightarrow>
                      if icannTLD = domain then Some errICANNTLD
                      else checkHostLists pa domain)))"

definition WillingToIssueWildcard ::
  "'r collaborators \<Rightarrow> 'r AuthorityImpl \<Rightarrow> AcmeIdentifier \<Rightarrow> error option" where
  "WillingToIssueWildcard env pa ident =
     (if Type ident \<noteq> IdentifierDNS then Some errInvalidIdentifier
      else
        let rawDomain = Value ident in
        if Count rawDomain CHR ''*'' > 1 then Some errTooManyWildcards
        else if Count rawDomain CHR ''*'' = 1 then
          (if \<not> HasPrefix rawDomain ''*.'' then Some errMalformedWildcard
           else
             let baseDomain = TrimPrefix rawDomain ''*.'' in
             (case iana_ExtractSuffix env baseDomain of
                None \<Rightarrow> Some errNonPublic
              | Some icannTLD \<Rightarrow>
                  if baseDomain = icannTLD then Some errICANNTLDWildcard
                  else
                    (case checkWildcardHostList pa baseDomain of
                       Some err \<Rightarrow> Some err
                     | None \<Rightarrow>
                         WillingToIssue env pa
                           \<lparr> Type = IdentifierDNS, Value = ''x.'' @ baseDomain \<rparr>)))
        else WillingToIssue env pa ident)"

section \<open>Challenge selection\<close>

text \<open>
  Modelled from the spec: \<open>core.NewToken()\<close> is not among the sources; it generates
  a random token at every call. The tokens drawn during one call of \<open>ChallengesFor\<close>
  are an argument of the model: \<open>draws k\<close> is the token that the call number \<open>k\<close>
  of \<open>core.NewToken()\<close> returns, counting from 0 within that call of
  \<open>ChallengesFor\<close>.
\<close>

type_synonym tokenDraws = "nat \<Rightarrow> string"

text \<open>
  Modelled from the spec: the challenge constructors of the \<open>core\<close> package are not
  among the sources; a challenge is a value carrying a challenge type and a token; in
  single-token mode all challenges of a call share the token \<open>ChallengesFor\<close> drew,
  otherwise each challenge gets a token of its own from the constructor. A constructor
  is called with the token of \<open>ChallengesFor\<close>, which is empty outside single-token
  mode: it keeps a token that is not empty and draws its own otherwise, which is then
  draw number \<open>k\<close> of the call. The four type names are the ACME ones.
\<close>

record Challenge =
  ChallengeType :: string
  Token :: string

definition ChallengeTypeHTTP01 :: string where
  "ChallengeTypeHTTP01 = ''http-01''"
definition ChallengeTypeTLSSNI01 :: string where
  "ChallengeTypeTLSSNI01 = ''tls-sni-01''"
definition ChallengeTypeTLSALPN01 :: string where
  "ChallengeTypeTLSALPN01 = ''tls-alpn-01''"
definition ChallengeTypeDNS01 :: string where
  "ChallengeTypeDNS01 = ''dns-01''"

definition newChallenge :: "string \<Rightarrow> tokenDraws \<Rightarrow> nat \<Rightarrow> string \<Rightarrow> Challenge" where
  "newChallenge challengeType draws k token =
     \<lparr> ChallengeType = challengeType, Token = (if token = [] then draws k else token) \<rparr>"

definition HTTPChallenge01 :: "tokenDraws \<Rightarrow> nat \<Rightarrow> string \<Rightarrow> Challenge" where
  "HTTPChallenge01 draws k token = newChallenge ChallengeTypeHTTP01 draws k token"
definition TLSSNIChallenge01 :: "tokenDraws \<Rightarrow> nat \<Rightarrow> string \<Rightarrow> Challenge" where
  "TLSSNIChallenge01 draws k token = newChallenge ChallengeTypeTLSSNI01 draws k token"
definition TLSALPNChallenge01 :: "tokenDraws \<Rightarrow> nat \<Rightarrow> string \<Rightarrow> Challenge" where
  "TLSALPNChallenge01 draws k token = newChallenge ChallengeTypeTLSALPN01 draws k token"
definition DNSChallenge01 :: "tokenDraws \<Rightarrow> nat \<Rightarrow> string \<Rightarrow> Challenge" where
  "DNSChallenge01 draws k token = newChallenge ChallengeTypeDNS01 draws k token"

text \<open>The zero value of \<open>core.Challenge\<close>, which \<open>make\<close> fills a fresh slice with.\<close>

definition zeroChallenge :: Challenge where
  "zeroChallenge = \<lparr> ChallengeType = [], Token = [] \<rparr>"

text \<open>\<open>pa.enabledChallengesWhitelist[t]\<close>: the inner map, nil when there is none.\<close>

definition whitelistFor :: "'r AuthorityImpl \<Rightarrow> string \<Rightarrow> (64 word) boolmap" where
  "whitelistFor pa t =
     (case enabledChallengesWhitelist pa of
        None \<Rightarrow> None
      | Some wl \<Rightarrow> (case wl t of None \<Rightarrow> None | Some inner \<Rightarrow> inner))"

definition ChallengeTypeEnabled :: "'r AuthorityImpl \<Rightarrow> string \<Rightarrow> 64 word \<Rightarrow> bool" where
  "ChallengeTypeEnabled pa t regID =
     (lookup (enabledChallenges pa) t \<or>
      (whitelistFor pa t \<noteq> None \<and> lookup (whitelistFor pa t) regID))"

definition errWildcardNeedsDNS01 :: error where
  "errWildcardNeedsDNS01 =
     Errorf ''Challenges requested for wildcard identifier but DNS-01 challenge type is not enabled'' []"

text \<open>
  The first half of \<open>ChallengesFor\<close>: the error of the early return, or the value of
  \<open>challenges\<close> when the shuffle starts. \<open>drawn\<close> is the number of tokens
  \<open>ChallengesFor\<close> itself has drawn; a constructor that draws its own token is given
  the empty token, as every constructor before it in the call was, so the number of
  draws before it is \<open>drawn\<close> plus the number of challenges built so far.
\<close>

definition selectChallenges ::
  "'r collaborators \<Rightarrow> 'r AuthorityImpl \<Rightarrow> AcmeIdentifier \<Rightarrow> 64 word \<Rightarrow> bool
   \<Rightarrow> tokenDraws \<Rightarrow> error + Challenge list" where
  "selectChallenges env pa identifier regID revalidation draws =
     (let token = (if feature_NewAuthorizationSchema env then draws 0 else []);
          drawn = (if feature_NewAuthorizationSchema env then 1 else 0)
      in
      if HasPrefix (Value identifier) ''*.'' then
        (if \<not> ChallengeTypeEnabled pa ChallengeTypeDNS01 regID
         then Inl errWildcardNeedsDNS01
         else Inr [DNSChallenge01 draws drawn token])
      else
        let challenges0 = [];
            challenges1 =
              (if ChallengeTypeEnabled pa ChallengeTypeHTTP01 regID
               then challenges0 @ [HTTPChallenge01 draws (drawn + length challenges0) token]
               else challenges0);
            challenges2 =
              (if ChallengeTypeEnabled pa ChallengeTypeTLSSNI01 regID \<or>
                  (feature_TLSSNIRevalidation env \<and> revalidation)
               then challenges1 @ [TLSSNIChallenge01 draws (drawn + length challenges1) token]
               else challenges1);
            challenges3 =
              (if ChallengeTypeEnabled pa ChallengeTypeTLSALPN01 regID
               then challenges2 @ [TLSALPNChallenge01 draws (drawn + length challenges2) token]
               else challenges2);
            challenges4 =
              (if ChallengeTypeEnabled pa ChallengeTypeDNS01 regID
               then challenges3 @ [DNSChallenge01 draws (drawn + length challenges3) token]
               else challenges3)
        in Inr challenges4)"

text \<open>
  The first shuffle loop, at index \<open>i\<close> with the rest of the permutation slice still to
  range over. Indexing a slice out of range panics in Go: the loop then yields \<open>None\<close>.
\<close>

fun shuffleLoop :: "Challenge list \<Rightarrow> nat \<Rightarrow> nat list \<Rightarrow> Challenge list \<Rightarrow> nat list list
                    \<Rightarrow> (Challenge list \<times> nat list list) option" where
  "shuffleLoop challenges i [] shuffled combinations = Some (shuffled, combinations)"
| "shuffleLoop challenges i (challIdx # rest) shuffled combinations =
     (if i < length shuffled \<and> challIdx < length challenges \<and> i < length combinations
      then shuffleLoop challenges (Suc i) rest
             (shuffled[i := challenges ! challIdx]) (combinations[i := [i]])
      else None)"

text \<open>The second shuffle loop, likewise.\<close>

fun comboLoop :: "nat list list \<Rightarrow> nat \<Rightarrow> nat list \<Rightarrow> nat list list \<Rightarrow> nat list list option" where
  "comboLoop combinations i [] shuffledCombos = Some shuffledCombos"
| "comboLoop combinations i (comboIdx # rest) shuffledCombos =
     (if i < length shuffledCombos \<and> comboIdx < length combinations
      then comboLoop combinations (Suc i) rest (shuffledCombos[i := combinations ! comboIdx])
      else None)"

text \<open>
  \<open>ChallengesFor\<close>, given the tokens drawn during the call, returns the authority
  afterwards (its generator has advanced) and, unless an index was out of range, the
  triple of challenges, combinations and error; a nil slice is the empty list.
\<close>

definition ChallengesFor ::
  "'r collaborators \<Rightarrow> 'r AuthorityImpl \<Rightarrow> AcmeIdentifier \<Rightarrow> 64 word \<Rightarrow> bool
   \<Rightarrow> tokenDraws
   \<Rightarrow> (Challenge list \<times> nat list list \<times> error option) option \<times> 'r AuthorityImpl" where
  "ChallengesFor env pa identifier regID revalidation draws =
     (case selectChallenges env pa identifier regID revalidation draws of
        Inl err \<Rightarrow> (Some ([], [], Some err), pa)
      | Inr challenges \<Rightarrow>
          let shuffled0 = replicate (length challenges) zeroChallenge;
              combinations0 = replicate (length challenges) [];
              (perm1, rng1) = rand_Perm env (pseudoRNG pa) (length challenges)
          in
          (case shuffleLoop challenges 0 perm1 shuffled0 combinations0 of
             None \<Rightarrow> (None, pa\<lparr> pseudoRNG := rng1 \<rparr>)
           | Some (shuffled, combinations) \<Rightarrow>
               let shuffledCombos0 = replicate (length combinations) [];
                   (perm2, rng2) = rand_Perm env rng1 (length combinations)
               in
               (case comboLoop combinations 0 perm2 shuffledCombos0 of
                  None \<Rightarrow> (None, pa\<lparr> pseudoRNG := rng2 \<rparr>)
                | Some shuffledCombos \<Rightarrow>
                    (Some (shuffled, shuffledCombos, None), pa\<lparr> pseudoRNG := rng2 \<rparr>))))"

section \<open>Notions used to state the properties\<close>

text \<open>
  The label suffixes of a domain: the full domain, then the domain minus its first
  label, and so on down to and including the last single label.
\<close>

definition labelSuffixes :: "string \<Rightarrow> string list" where
  "labelSuffixes d =
     (let labels = Split d CHR ''.''
      in map (\<lambda>i. Join (drop i labels) ''.'') [0..<length labels])"

text \<open>A domain minus its leftmost label: its labels after the first, joined again.\<close>

definition withoutFirstLabel :: "string \<Rightarrow> string" where
  "withoutFirstLabel v = Join (tl (Split v CHR ''.'')) ''.''"

text \<open>
  The reloader hands every new content of the policy file to \<open>loadHostnamePolicy\<close>.
  \<open>reloadAll\<close> runs the loads of a history of contents, oldest first, and returns the
  error of each load with the authority at the end.
\<close>

fun reloadAll :: "'r collaborators \<Rightarrow> 'r AuthorityImpl \<Rightarrow> string list
                  \<Rightarrow> error option list \<times> 'r AuthorityImpl" where
  "reloadAll env pa [] = ([], pa)"
| "reloadAll env pa (b # bs) =
     (case loadHostnamePolicy env pa b of
        (err, pa') \<Rightarrow> (case reloadAll env pa' bs of (errs, pa'') \<Rightarrow> (err # errs, pa'')))"

text \<open>
  The checks of \<open>willingToIssue\<close> written out as lists, each check giving its
  error when it fails; \<open>firstFailure\<close> reports the first failing one. The character
  classes are spelled out letter by letter.
\<close>

definition failsWith :: "bool \<Rightarrow> error \<Rightarrow> error option" where
  "failsWith failed err = (if failed then Some err else None)"

fun firstFailure :: "error option list \<Rightarrow> error option" where
  "firstFailure [] = None"
| "firstFailure (None # checks) = firstFailure checks"
| "firstFailure (Some err # checks) = Some err"

definition labelAlphabet :: string where
  "labelAlphabet = ''abcdefghijklmnopqrstuvwxyz0123456789''"

definition dnsAlphabet :: string where
  "dnsAlphabet = ''abcdefghijklmnopqrstuvwxyzABCDEFGHIJKLMNOPQRSTUVWXYZ0123456789.-''"

text \<open>A label starts with a letter or digit and goes on with letters, digits and hyphens.\<close>

definition labelSyntax :: "string \<Rightarrow> bool" where
  "labelSyntax label =
     (label \<noteq> [] \<and> hd label \<in> set labelAlphabet \<and>
      list_all (\<lambda>c. c \<in> set labelAlphabet \<or> c = CHR ''-'') label)"

text \<open>The reserved form: two letters or digits, then two hyphens.\<close>

definition reservedForm :: "string \<Rightarrow> bool" where
  "reservedForm label =
     (4 \<le> length label \<and> label ! 0 \<in> set labelAlphabet \<and> label ! 1 \<in> set labelAlphabet \<and>
      label ! 2 = CHR ''-'' \<and> label ! 3 = CHR ''-'')"

text \<open>Step 9 on one label: its length, its syntax and its last character.\<close>

definition labelSyntaxChecks :: "string \<Rightarrow> error option list" where
  "labelSyntaxChecks label =
     [ failsWith (length label < 1) errLabelTooShort,
       failsWith (length label > 63) errLabelTooLong,
       failsWith (\<not> labelSyntax label) errInvalidDNSCharacter,
       failsWith (label \<noteq> [] \<and> last label = CHR ''-'') errInvalidDNSCharacter ]"

text \<open>Step 10 on one label: punycode that decodes to normalised text, or no reserved form.\<close>

definition labelIdnChecks :: "'r collaborators \<Rightarrow> string \<Rightarrow> error option list" where
  "labelIdnChecks env label =
     [ failsWith (HasPrefix label ''xn--'' \<and>
                  (case idna_ToUnicode env label of
                     None \<Rightarrow> True
                   | Some ulabel \<Rightarrow> \<not> norm_IsNormalString env ulabel)) errMalformedIDN,
       failsWith (\<not> HasPrefix label ''xn--'' \<and> reservedForm label) errInvalidRLDH ]"

text \<open>Steps 1 to 8, on the whole name, and steps 11 and 12.\<close>

definition nameChecks :: "'r collaborators \<Rightarrow> AcmeIdentifier \<Rightarrow> error option list" where
  "nameChecks env ident =
     (let d = Value ident; labels = Split d CHR ''.'' in
      [ failsWith (Type ident \<noteq> IdentifierDNS) errInvalidIdentifier,
        failsWith (d = []) errEmptyName,
        failsWith (HasPrefix d ''*.'') errWildcardNotSupported,
        failsWith (\<not> list_all (\<lambda>c. c \<in> set dnsAlphabet) d) errInvalidDNSCharacter,
        failsWith (length d > 230) errNameTooLong,
        failsWith (net_ParseIP env d) errIPAddress,
        failsWith (d \<noteq> [] \<and> last d = CHR ''.'') errNameEndsInDot,
        failsWith (length labels > 10) errTooManyLabels,
        failsWith (length labels < 2) errTooFewLabels ])"

definition finalChecks ::
  "'r collaborators \<Rightarrow> 'r AuthorityImpl \<Rightarrow> AcmeIdentifier \<Rightarrow> error option list" where
  "finalChecks env pa ident =
     (let d = Value ident in
      [ failsWith (iana_ExtractSuffix env d = None) errNonPublic,
        failsWith (iana_ExtractSuffix env d = Some d) errICANNTLD,
        failsWith (blacklist pa = None) errNotLoaded,
        failsWith ((\<exists>s\<in>set (labelSuffixes d). lookup (blacklist pa) s) \<or>
                   lookup (exactBlacklist pa) d) errBlacklisted ])"

text \<open>
  The checks step by step: step 9 on every label, then step 10 on every label.
\<close>

definition stepwiseChecks ::
  "'r collaborators \<Rightarrow> 'r AuthorityImpl \<Rightarrow> AcmeIdentifier \<Rightarrow> error option list" where
  "stepwiseChecks env pa ident =
     nameChecks env ident
     @ concat (map labelSyntaxChecks (Split (Value ident) CHR ''.''))
     @ concat (map (labelIdnChecks env) (Split (Value ident) CHR ''.''))
     @ finalChecks env pa ident"

text \<open>
  The checks label by label: steps 9 and 10 on the first label, then on the second,
  and so on.
\<close>

definition labelwiseChecks ::
  "'r collaborators \<Rightarrow> 'r AuthorityImpl \<Rightarrow> AcmeIdentifier \<Rightarrow> error option list" where
  "labelwiseChecks env pa ident =
     nameChecks env ident
     @ concat (map (\<lambda>label. labelSyntaxChecks label @ labelIdnChecks env label)
         (Split (Value ident) CHR ''.''))
     @ finalChecks env pa ident"

text \<open>
  The class of a Go error value as an API layer sees it: the type of a \<open>berrors\<close>
  error, and none for an error that is not one.
\<close>

fun errorClass :: "error \<Rightarrow> ErrorType option" where
  "errorClass (BoulderError t msg) = Some t"
| "errorClass (Errorf format args) = None"

text \<open>
  The contract of \<open>(*rand.Rand).Perm\<close>: in every generator state, \<open>Perm(n)\<close> is a
  permutation of \<open>0, \<dots>, n - 1\<close>.
\<close>

definition permContract :: "'r collaborators \<Rightarrow> bool" where
  "permContract env = (\<forall>r n. mset (fst (rand_Perm env r n)) = mset [0..<n])"

text \<open>All four challenge types are enabled for an account.\<close>

definition allFourEnabled :: "'r AuthorityImpl \<Rightarrow> 64 word \<Rightarrow> bool" where
  "allFourEnabled pa regID =
     (ChallengeTypeEnabled pa ChallengeTypeHTTP01 regID \<and>
      ChallengeTypeEnabled pa ChallengeTypeTLSSNI01 regID \<and>
      ChallengeTypeEnabled pa ChallengeTypeTLSALPN01 regID \<and>
      ChallengeTypeEnabled pa ChallengeTypeDNS01 regID)"

text \<open>The challenges of all four types, in the order the selector appends them.\<close>

definition fourChallenges :: "'r collaborators \<Rightarrow> tokenDraws \<Rightarrow> Challenge list" where
  "fourChallenges env draws =
     (let token = (if feature_NewAuthorizationSchema env then draws 0 else []);
          drawn = (if feature_NewAuthorizationSchema env then 1 else 0)
      in [HTTPChallenge01 draws drawn token, TLSSNIChallenge01 draws (drawn + 1) token,
          TLSALPNChallenge01 draws (drawn + 2) token, DNSChallenge01 draws (drawn + 3) token])"

text \<open>
  What a result of \<open>ChallengesFor\<close> says about the ordering: the types of the
  challenges in their returned order, and the combinations in theirs. The tokens are
  left out; they are random in every call.
\<close>

definition ordering ::
  "(Challenge list \<times> nat list list \<times> error option) option
   \<Rightarrow> (string list \<times> nat list list \<times> error option) option" where
  "ordering result =
     (case result of
        None \<Rightarrow> None
      | Some (challenges, combinations, err) \<Rightarrow>
          Some (map ChallengeType challenges, combinations, err))"

text \<open>
  A run of the challenge selector: successive calls of \<open>ChallengesFor\<close> on one
  authority, each with its arguments and its own token draws, and each starting from
  the generator state the call before left behind.
\<close>

fun callSequence ::
  "'r collaborators \<Rightarrow> 'r AuthorityImpl
   \<Rightarrow> (AcmeIdentifier \<times> 64 word \<times> bool \<times> tokenDraws) list
   \<Rightarrow> (Challenge list \<times> nat list list \<times> error option) option list" where
  "callSequence env pa [] = []"
| "callSequence env pa ((identifier, regID, revalidation, draws) # calls) =
     (case ChallengesFor env pa identifier regID revalidation draws of
        (result, pa') \<Rightarrow> result # callSequence env pa' calls)"

section \<open>An example environment\<close>

text \<open>
  A small environment to run the model in: the decoder yields the given document for
  every non-empty input, an IP literal is a dotted quad, \<open>com\<close> and \<open>org\<close> are the
  public suffixes, no punycode label decodes, and \<open>Perm\<close> rotates \<open>0, \<dots>, n - 1\<close> by
  the generator state, a counter.
\<close>

definition isDigit :: "char \<Rightarrow> bool" where
  "isDigit c = (CHR ''0'' \<le> c \<and> c \<le> CHR ''9'')"

definition decimalValue :: "string \<Rightarrow> nat" where
  "decimalValue s = foldl (\<lambda>n c. 10 * n + (of_char c - 48)) 0 s"

definition dottedQuad :: "string \<Rightarrow> bool" where
  "dottedQuad s =
     (let fields = Split s CHR ''.''
      in length fields = 4 \<and>
         list_all (\<lambda>f. f \<noteq> [] \<and> length f \<le> 3 \<and> list_all isDigit f \<and> decimalValue f \<le> 255)
           fields)"

definition exampleSuffix :: "string \<Rightarrow> string option" where
  "exampleSuffix d =
     (let tld = last (Split d CHR ''.'')
      in if tld = ''com'' \<or> tld = ''org'' then Some tld else None)"

definition exampleEnv :: "blacklistJSON \<Rightarrow> nat collaborators" where
  "exampleEnv doc =
     \<lparr> json_Unmarshal =
         (\<lambda>b. if b = [] then Inl (Errorf ''unexpected end of JSON input'' []) else Inr doc),
       net_ParseIP = dottedQuad,
       idna_ToUnicode = (\<lambda>label. None),
       norm_IsNormalString = (\<lambda>ulabel. True),
       iana_ExtractSuffix = exampleSuffix,
       feature_NewAuthorizationSchema = False,
       feature_TLSSNIRevalidation = False,
       rand_NewSource = nat,
       rand_Perm = (\<lambda>r n. (rotate r [0..<n], Suc r)) \<rparr>"

definition examplePolicy :: blacklistJSON where
  "examplePolicy =
     \<lparr> Blacklist = [''example.com''], ExactBlacklist = [''evil.example.org''] \<rparr>"

text \<open>The DNS identifier of a name.\<close>

definition dnsIdentifier :: "string \<Rightarrow> AcmeIdentifier" where
  "dnsIdentifier d = \<lparr> Type = IdentifierDNS, Value = d \<rparr>"

text \<open>The authority after one successful load of the example policy.\<close>

definition exampleAuthority :: "nat AuthorityImpl" where
  "exampleAuthority =
     snd (loadHostnamePolicy (exampleEnv examplePolicy)
            (New (exampleEnv examplePolicy) None) ''policy'')"

text \<open>
  Further policy files: one whose blacklist is empty, one with a single deep exact
  entry, one with an exact entry of a single label, and one with the exact entry
  \<open>evil.example.com\<close>; and the authorities after one successful load.
\<close>

definition emptyPolicy :: blacklistJSON where
  "emptyPolicy = \<lparr> Blacklist = [], ExactBlacklist = [''com''] \<rparr>"

definition deepPolicy :: blacklistJSON where
  "deepPolicy = \<lparr> Blacklist = [''example.net''], ExactBlacklist = [''a.b.example.com''] \<rparr>"

definition malformedPolicy :: blacklistJSON where
  "malformedPolicy = \<lparr> Blacklist = [''example.net''], ExactBlacklist = [''com''] \<rparr>"

definition deepAuthority :: "nat AuthorityImpl" where
  "deepAuthority =
     snd (loadHostnamePolicy (exampleEnv deepPolicy) (New (exampleEnv deepPolicy) None) ''policy'')"

definition evilPolicy :: blacklistJSON where
  "evilPolicy = \<lparr> Blacklist = [''example.net''], ExactBlacklist = [''evil.example.com''] \<rparr>"

definition evilAuthority :: "nat AuthorityImpl" where
  "evilAuthority =
     snd (loadHostnamePolicy (exampleEnv evilPolicy) (New (exampleEnv evilPolicy) None) ''policy'')"

text \<open>
  Challenge configurations: all four types enabled for everyone, and HTTP-01 alone; and
  an authority with HTTP-01 alone whose allow-list admits account 7 to DNS-01.
\<close>

definition allChallenges :: "string boolmap" where
  "allChallenges =
     Some [ChallengeTypeHTTP01 \<mapsto> True, ChallengeTypeTLSSNI01 \<mapsto> True,
           ChallengeTypeTLSALPN01 \<mapsto> True, ChallengeTypeDNS01 \<mapsto> True]"

definition httpOnly :: "string boolmap" where
  "httpOnly = Some [ChallengeTypeHTTP01 \<mapsto> True]"

definition allowListAuthority :: "nat AuthorityImpl" where
  "allowListAuthority =
     (New (exampleEnv examplePolicy) httpOnly)
       \<lparr> enabledChallengesWhitelist := Some [ChallengeTypeDNS01 \<mapsto> Some [7 \<mapsto> True]] \<rparr>"

text \<open>Two authorities in the initial generator state with all four types enabled.\<close>

definition fourAuthority :: "nat AuthorityImpl" where
  "fourAuthority = New (exampleEnv examplePolicy) allChallenges"

definition loadedFourAuthority :: "nat AuthorityImpl" where
  "loadedFourAuthority = exampleAuthority\<lparr> enabledChallenges := allChallenges \<rparr>"

text \<open>
  Token draws: in \<open>drawsA\<close> draw \<open>k\<close> is \<open>k + 1\<close> letters \<open>a\<close>, in
  \<open>drawsB\<close> letters \<open>b\<close>; and two runs of two calls that agree in nothing but
  their length.
\<close>

definition drawsA :: tokenDraws where
  "drawsA k = replicate (Suc k) CHR ''a''"

definition drawsB :: tokenDraws where
  "drawsB k = replicate (Suc k) CHR ''b''"

definition exampleCalls :: "(AcmeIdentifier \<times> 64 word \<times> bool \<times> tokenDraws) list" where
  "exampleCalls =
     [(dnsIdentifier ''foo.org'', 1, False, drawsA), (dnsIdentifier ''bar.com'', 2, True, drawsA)]"

definition otherCalls :: "(AcmeIdentifier \<times> 64 word \<times> bool \<times> tokenDraws) list" where
  "otherCalls =
     [(dnsIdentifier ''www.example.org'', 5, True, drawsB),
      (dnsIdentifier ''foo.org'', 1, False, drawsB)]"

section \<open>Properties of the string primitives\<close>

lemma Split_nonempty: "Split s c \<noteq> []"
  by (induction s) auto

lemma Join_Cons: "ls \<noteq> [] \<Longrightarrow> Join (x # ls) sep = x @ sep @ Join ls sep"
  by (cases ls) auto

text \<open>Joining the labels of a name with the separator gives the name back.\<close>

lemma Join_Split: "Join (Split s c) [c] = s"
proof (induction s)
  case Nil
  show ?case by simp
next
  case (Cons x xs)
  obtain w ws where sp: "Split xs c = w # ws"
    using Split_nonempty[of xs c] by (cases "Split xs c") auto
  show ?case
  proof (cases "x = c")
    case True
    then show ?thesis using Cons by (simp add: Join_Cons Split_nonempty)
  next
    case False
    have "Join ((x # w) # ws) [c] = x # Join (w # ws) [c]" by (cases ws) auto
    then show ?thesis using False Cons sp by simp
  qed
qed

lemma Split_nodot: "c \<notin> set s \<Longrightarrow> Split s c = [s]"
  by (induction s) auto

lemma Split_dot:
  "c \<in> set s \<Longrightarrow>
   Split s c = takeWhile (\<lambda>x. x \<noteq> c) s # Split (tl (dropWhile (\<lambda>x. x \<noteq> c) s)) c"
  by (induction s) (auto simp: Split_nodot)

lemma length_Split_lt_2: "length (Split s c) < 2 \<longleftrightarrow> c \<notin> set s"
proof (cases "c \<in> set s")
  case True
  then show ?thesis
    using Split_dot[of c s] Split_nonempty[of "tl (dropWhile (\<lambda>x. x \<noteq> c) s)" c]
    by (cases "Split (tl (dropWhile (\<lambda>x. x \<noteq> c) s)) c") auto
next
  case False
  then show ?thesis by (simp add: Split_nodot)
qed

lemma SplitN_2_nodot: "c \<notin> set s \<Longrightarrow> SplitN s c 2 = [s]"
  by (induction s) (auto simp: numeral_2_eq_2)

lemma SplitN_2_dot:
  "c \<in> set s \<Longrightarrow>
   SplitN s c 2 = [takeWhile (\<lambda>x. x \<noteq> c) s, tl (dropWhile (\<lambda>x. x \<noteq> c) s)]"
  by (induction s) (auto simp: numeral_2_eq_2)

lemma length_SplitN_2: "length (SplitN s c 2) < 2 \<longleftrightarrow> c \<notin> set s"
  using SplitN_2_nodot[of c s] SplitN_2_dot[of c s] by (cases "c \<in> set s") auto

text \<open>
  The second piece of \<open>SplitN(s, sep, 2)\<close> is the name without its leftmost label:
  its labels after the first, joined again.
\<close>

lemma SplitN_2_rest: "c \<in> set s \<Longrightarrow> SplitN s c 2 ! 1 = Join (tl (Split s c)) [c]"
  by (simp add: SplitN_2_dot Split_dot Join_Split)

section \<open>Label suffixes\<close>

lemma suffixLoop_iff:
  "suffixLoop bl ls \<longleftrightarrow> (\<exists>i<length ls. lookup bl (Join (drop i ls) ''.''))"
proof (induction ls)
  case Nil
  show ?case by simp
next
  case (Cons l ls)
  have "(\<exists>i<length (l # ls). lookup bl (Join (drop i (l # ls)) ''.'')) \<longleftrightarrow>
        lookup bl (Join (l # ls) ''.'') \<or> (\<exists>i<length ls. lookup bl (Join (drop i ls) ''.''))"
    by (auto simp: less_Suc_eq_0_disj)
  then show ?case using Cons by auto
qed

lemma suffixLoop_labelSuffixes:
  "suffixLoop bl (Split d CHR ''.'') \<longleftrightarrow> (\<exists>s\<in>set (labelSuffixes d). lookup bl s)"
  by (auto simp: suffixLoop_iff labelSuffixes_def Let_def)

text \<open>The suffixes that start after the first label are the strings that follow a dot.\<close>

lemma proper_suffixes:
  "(\<exists>i. Suc i < length (Split d c) \<and> Join (drop (Suc i) (Split d c)) [c] = s)
   \<longleftrightarrow> (\<exists>p. d = p @ c # s)"
proof (induction d)
  case Nil
  show ?case by simp
next
  case (Cons x xs)
  obtain w ws where sp: "Split xs c = w # ws"
    using Split_nonempty[of xs c] by (cases "Split xs c") auto
  show ?case
  proof (cases "x = c")
    case True
    have "(\<exists>i. Suc i < length (Split (x # xs) c) \<and>
               Join (drop (Suc i) (Split (x # xs) c)) [c] = s)
      \<longleftrightarrow> (\<exists>i. i < length (Split xs c) \<and> Join (drop i (Split xs c)) [c] = s)"
      using True by simp
    also have "\<dots> \<longleftrightarrow> Join (Split xs c) [c] = s \<or>
        (\<exists>i. Suc i < length (Split xs c) \<and> Join (drop (Suc i) (Split xs c)) [c] = s)"
      using sp by (auto simp: less_Suc_eq_0_disj)
    also have "\<dots> \<longleftrightarrow> xs = s \<or> (\<exists>p. xs = p @ c # s)"
      using Cons by (simp add: Join_Split)
    also have "\<dots> \<longleftrightarrow> (\<exists>p. x # xs = p @ c # s)"
      using True by (auto simp: Cons_eq_append_conv)
    finally show ?thesis .
  next
    case False
    have "(\<exists>i. Suc i < length (Split (x # xs) c) \<and>
               Join (drop (Suc i) (Split (x # xs) c)) [c] = s)
      \<longleftrightarrow> (\<exists>i. Suc i < length (Split xs c) \<and> Join (drop (Suc i) (Split xs c)) [c] = s)"
      using False sp by simp
    also have "\<dots> \<longleftrightarrow> (\<exists>p. xs = p @ c # s)"
      using Cons by simp
    also have "\<dots> \<longleftrightarrow> (\<exists>p. x # xs = p @ c # s)"
      using False by (auto simp: Cons_eq_append_conv)
    finally show ?thesis .
  qed
qed

lemma set_labelSuffixes: "set (labelSuffixes d) = {d} \<union> {s. \<exists>p. d = p @ ''.'' @ s}"
proof -
  have "s \<in> set (labelSuffixes d) \<longleftrightarrow> s = d \<or> (\<exists>p. d = p @ ''.'' @ s)" for s
  proof -
    let ?ls = "Split d CHR ''.''"
    have ne: "0 < length ?ls"
      using Split_nonempty[of d] by simp
    have "s \<in> set (labelSuffixes d) \<longleftrightarrow> (\<exists>i<length ?ls. Join (drop i ?ls) ''.'' = s)"
      by (auto simp: labelSuffixes_def Let_def)
    also have "\<dots> \<longleftrightarrow> Join ?ls ''.'' = s \<or>
        (\<exists>i. Suc i < length ?ls \<and> Join (drop (Suc i) ?ls) ''.'' = s)"
      using ne by (auto simp: less_Suc_eq_0_disj gr0_conv_Suc)
    also have "\<dots> \<longleftrightarrow> s = d \<or> (\<exists>p. d = p @ ''.'' @ s)"
      using proper_suffixes[of d "CHR ''.''" s] Join_Split[of d "CHR ''.''"] by auto
    finally show ?thesis .
  qed
  then show ?thesis by auto
qed

section \<open>What a load does\<close>

lemma nameLoop_apply: "nameLoop vs m k = (if k \<in> set vs then Some True else m k)"
  by (induction vs arbitrary: m) auto

lemma exactLoop_Inr:
  "exactLoop vs e w = Inr (e', w') \<Longrightarrow>
     (\<forall>v\<in>set vs. CHR ''.'' \<in> set v) \<and>
     (\<forall>k. e' k = (if k \<in> set vs then Some True else e k)) \<and>
     (\<forall>k. w' k = (if \<exists>v\<in>set vs. SplitN v CHR ''.'' 2 ! 1 = k then Some True else w k))"
proof (induction vs arbitrary: e w)
  case Nil
  then show ?case by simp
next
  case (Cons v vs)
  from Cons.prems have dot: "CHR ''.'' \<in> set v"
    using length_SplitN_2[of v "CHR ''.''"] by (auto simp: Let_def split: if_splits)
  from Cons.prems dot
  have rec: "exactLoop vs (e(v \<mapsto> True)) (w(SplitN v CHR ''.'' 2 ! 1 \<mapsto> True)) = Inr (e', w')"
    using length_SplitN_2[of v "CHR ''.''"] by (auto simp: Let_def split: if_splits)
  from Cons.IH[OF rec] dot show ?case by auto
qed

lemma exactLoop_Inl:
  "exactLoop vs e w = Inl err \<Longrightarrow> \<exists>v\<in>set vs. CHR ''.'' \<notin> set v \<and> err = errMalformedExact v"
proof (induction vs arbitrary: e w)
  case Nil
  then show ?case by simp
next
  case (Cons v vs)
  show ?case
  proof (cases "CHR ''.'' \<in> set v")
    case True
    with Cons.prems
    have "exactLoop vs (e(v \<mapsto> True)) (w(SplitN v CHR ''.'' 2 ! 1 \<mapsto> True)) = Inl err"
      using length_SplitN_2[of v "CHR ''.''"] by (auto simp: Let_def split: if_splits)
    from Cons.IH[OF this] show ?thesis by auto
  next
    case False
    with Cons.prems have "err = errMalformedExact v"
      using length_SplitN_2[of v "CHR ''.''"] by (auto simp: Let_def split: if_splits)
    with False show ?thesis by auto
  qed
qed

lemma exactLoop_all_dotted:
  "\<forall>v\<in>set vs. CHR ''.'' \<in> set v \<Longrightarrow> \<exists>e' w'. exactLoop vs e w = Inr (e', w')"
proof (induction vs arbitrary: e w)
  case Nil
  then show ?case by simp
next
  case (Cons v vs)
  then show ?case
    using length_SplitN_2[of v "CHR ''.''"] by (auto simp: Let_def)
qed

text \<open>A load that returns no error has decoded a document and installed its three sets.\<close>

lemma load_success:
  assumes "loadHostnamePolicy env pa b = (None, pa')"
  shows "\<exists>bl. json_Unmarshal env b = Inr bl \<and> Blacklist bl \<noteq> [] \<and>
           (\<forall>v\<in>set (ExactBlacklist bl). CHR ''.'' \<in> set v) \<and>
           blacklist pa' \<noteq> None \<and>
           (\<forall>k. lookup (blacklist pa') k \<longleftrightarrow> k \<in> set (Blacklist bl)) \<and>
           (\<forall>k. lookup (exactBlacklist pa') k \<longleftrightarrow> k \<in> set (ExactBlacklist bl)) \<and>
           (\<forall>k. lookup (wildcardExactBlacklist pa') k \<longleftrightarrow>
                  (\<exists>v\<in>set (ExactBlacklist bl). SplitN v CHR ''.'' 2 ! 1 = k))"
proof -
  from assms obtain bl where bl: "json_Unmarshal env b = Inr bl"
    by (auto simp: loadHostnamePolicy_def split: sum.splits)
  from assms bl have ne: "Blacklist bl \<noteq> []"
    by (auto simp: loadHostnamePolicy_def split: if_splits)
  from assms bl ne obtain e w where
    ex: "exactLoop (ExactBlacklist bl) Map.empty Map.empty = Inr (e, w)" and
    pa': "pa' = pa\<lparr> blacklist := Some (nameLoop (Blacklist bl) Map.empty),
                    exactBlacklist := Some e, wildcardExactBlacklist := Some w \<rparr>"
    by (auto simp: loadHostnamePolicy_def Let_def split: sum.splits)
  from exactLoop_Inr[OF ex] pa' bl ne show ?thesis
    by (auto simp: lookup_def nameLoop_apply)
qed

text \<open>A load that returns an error has assigned nothing.\<close>

lemma load_failure_unchanged:
  "fst (loadHostnamePolicy env pa b) \<noteq> None \<Longrightarrow> snd (loadHostnamePolicy env pa b) = pa"
  by (auto simp: loadHostnamePolicy_def Let_def split: sum.splits if_splits)

section \<open>Shared facts about the validators and the example\<close>

text \<open>
  Whether an identifier passes the checks before the blacklist does not depend on the
  authority: if it is accepted under one policy, then under any policy the verdict is
  that of \<open>checkHostLists\<close>.
\<close>

lemma WillingToIssue_defers:
  "WillingToIssue env pa0 ident = None \<Longrightarrow>
   WillingToIssue env pa ident = checkHostLists pa (Value ident)"
  by (auto simp: WillingToIssue_def Let_def split: if_splits option.splits)

lemma labelSuffixes_examples:
  "labelSuffixes ''example.com'' = [''example.com'', ''com'']"
  "labelSuffixes ''foo.example.com'' = [''foo.example.com'', ''example.com'', ''com'']"
  "labelSuffixes ''a.b.example.com'' =
     [''a.b.example.com'', ''b.example.com'', ''example.com'', ''com'']"
  "labelSuffixes ''myexample.com'' = [''myexample.com'', ''com'']"
  "labelSuffixes ''www.foo.example.com'' =
     [''www.foo.example.com'', ''foo.example.com'', ''example.com'', ''com'']"
  by code_simp+

lemma example_load:
  "loadHostnamePolicy (exampleEnv examplePolicy) (New (exampleEnv examplePolicy) None) ''policy''
   = (None, exampleAuthority)"
proof -
  have "fst (loadHostnamePolicy (exampleEnv examplePolicy)
               (New (exampleEnv examplePolicy) None) ''policy'') = None"
    by (simp add: loadHostnamePolicy_def exampleEnv_def examplePolicy_def Let_def
        numeral_2_eq_2)
  then show ?thesis
    unfolding exampleAuthority_def by (metis prod.collapse)
qed

lemma example_doc:
  "json_Unmarshal (exampleEnv examplePolicy) ''policy'' = Inr examplePolicy"
  by (simp add: exampleEnv_def)

lemma example_valid_foo:
  "WillingToIssue (exampleEnv doc)
     ((New (exampleEnv doc) None)\<lparr> blacklist := Some Map.empty \<rparr>)
     \<lparr> Type = IdentifierDNS, Value = ''foo.example.com'' \<rparr> = None"
  by code_simp

lemma deep_load_ok:
  "fst (loadHostnamePolicy (exampleEnv deepPolicy) pa ''policy'') = None"
  by (simp add: loadHostnamePolicy_def exampleEnv_def deepPolicy_def Let_def numeral_2_eq_2)

section \<open>The checks of the validator as an ordered list\<close>

lemma firstFailure_append:
  "firstFailure (xs @ ys) = (case firstFailure xs of Some e \<Rightarrow> Some e | None \<Rightarrow> firstFailure ys)"
  by (induction xs rule: firstFailure.induct) auto

lemma firstFailure_failsWith:
  "firstFailure (failsWith c e # cs) = (if c then Some e else firstFailure cs)"
  by (simp add: failsWith_def)

lemma HasSuffix_dot: "HasSuffix d ''.'' \<longleftrightarrow> d \<noteq> [] \<and> last d = CHR ''.''"
proof (cases d rule: rev_cases)
  case Nil
  then show ?thesis by (simp add: HasSuffix_def)
next
  case (snoc ys y)
  then show ?thesis by (auto simp: HasSuffix_def)
qed

text \<open>
  The character ranges and regular expressions of the code accept what the spelled-out
  classes accept.
\<close>

lemma isDNSCharacter_alphabet: "isDNSCharacter c \<longleftrightarrow> c \<in> set dnsAlphabet"
proof -
  have "\<forall>c. isDNSCharacter c \<longleftrightarrow> c \<in> set dnsAlphabet"
    by code_simp
  then show ?thesis by blast
qed

lemma lowerAlnum_alphabet: "lowerAlnum c \<longleftrightarrow> c \<in> set labelAlphabet"
proof -
  have "\<forall>c. lowerAlnum c \<longleftrightarrow> c \<in> set labelAlphabet"
    by code_simp
  then show ?thesis by blast
qed

lemma list_all_dnsAlphabet:
  "list_all isDNSCharacter d \<longleftrightarrow> list_all (\<lambda>c. c \<in> set dnsAlphabet) d"
  by (induction d) (simp_all add: isDNSCharacter_alphabet)

lemma dnsLabelRegexp_iff: "dnsLabelRegexp label \<longleftrightarrow> labelSyntax label \<and> length label \<le> 63"
proof (cases label)
  case Nil
  then show ?thesis by (simp add: dnsLabelRegexp_def labelSyntax_def)
next
  case (Cons c cs)
  have "list_all (\<lambda>x. lowerAlnum x \<or> x = CHR ''-'') cs \<longleftrightarrow>
        list_all (\<lambda>x. x \<in> set labelAlphabet \<or> x = CHR ''-'') cs"
    by (induction cs) (simp_all add: lowerAlnum_alphabet)
  with Cons show ?thesis
    unfolding dnsLabelRegexp_def labelSyntax_def lowerAlnum_alphabet by auto
qed

lemma idnReservedRegexp_iff: "idnReservedRegexp label \<longleftrightarrow> reservedForm label"
proof (cases label)
  case Nil
  then show ?thesis by (simp add: idnReservedRegexp_def reservedForm_def)
next
  case (Cons a l1)
  note l0 = this
  show ?thesis
  proof (cases l1)
    case Nil
    with l0 show ?thesis by (simp add: idnReservedRegexp_def reservedForm_def)
  next
    case (Cons b l2)
    note l1 = this
    show ?thesis
    proof (cases l2)
      case Nil
      with l0 l1 show ?thesis by (simp add: idnReservedRegexp_def reservedForm_def)
    next
      case (Cons c l3)
      note l2 = this
      show ?thesis
      proof (cases l3)
        case Nil
        with l0 l1 l2 show ?thesis by (simp add: idnReservedRegexp_def reservedForm_def)
      next
        case (Cons d l4)
        with l0 l1 l2 show ?thesis
          unfolding idnReservedRegexp_def reservedForm_def lowerAlnum_alphabet
          by (simp add: numeral_3_eq_3 numeral_2_eq_2)
      qed
    qed
  qed
qed

text \<open>One round of the label loop is the six checks of steps 9 and 10 on that label.\<close>

lemma labelLoop_step:
  "labelLoop env (label # labels) =
     (case firstFailure (labelSyntaxChecks label @ labelIdnChecks env label) of
        Some e \<Rightarrow> Some e | None \<Rightarrow> labelLoop env labels)"
proof (cases "label = []")
  case True
  then show ?thesis by (simp add: labelSyntaxChecks_def failsWith_def)
next
  case False
  then have l: "label ! (length label - 1) = last label" "\<not> length label < 1"
    by (simp_all add: last_conv_nth)
  have r: "\<not> length label > 63 \<Longrightarrow> dnsLabelRegexp label = labelSyntax label"
    by (simp add: dnsLabelRegexp_iff)
  show ?thesis
  proof (cases "length label > 63")
    case True
    with False show ?thesis
      by (simp add: labelSyntaxChecks_def failsWith_def maxLabelLength_def)
  next
    case short: False
    show ?thesis
      unfolding labelLoop.simps l labelSyntaxChecks_def labelIdnChecks_def failsWith_def
        maxLabelLength_def punycodeRegexp_def idnReservedRegexp_iff r[OF short]
      using False short by (simp split: option.splits)
  qed
qed

lemma labelLoop_firstFailure:
  "labelLoop env labels =
     firstFailure (concat (map (\<lambda>label. labelSyntaxChecks label @ labelIdnChecks env label)
                             labels))"
proof (induction labels)
  case Nil
  show ?case by simp
next
  case (Cons label labels)
  have "labelLoop env (label # labels) =
     (case firstFailure (labelSyntaxChecks label @ labelIdnChecks env label) of
        Some e \<Rightarrow> Some e | None \<Rightarrow> labelLoop env labels)"
    by (rule labelLoop_step)
  also have "\<dots> = firstFailure ((labelSyntaxChecks label @ labelIdnChecks env label) @
      concat (map (\<lambda>label. labelSyntaxChecks label @ labelIdnChecks env label) labels))"
    unfolding firstFailure_append[of "labelSyntaxChecks label @ labelIdnChecks env label"] Cons ..
  finally show ?case by simp
qed

lemma firstFailure_finalChecks:
  "firstFailure (finalChecks env pa ident) =
     (case iana_ExtractSuffix env (Value ident) of
        None \<Rightarrow> Some errNonPublic
      | Some icannTLD \<Rightarrow>
          if icannTLD = Value ident then Some errICANNTLD
          else checkHostLists pa (Value ident))"
  by (cases "iana_ExtractSuffix env (Value ident)")
     (auto simp: finalChecks_def Let_def failsWith_def checkHostLists_def
        suffixLoop_labelSuffixes)

lemma firstFailure_nameChecks:
  "firstFailure (nameChecks env ident @ rest) =
    (if Type ident \<noteq> IdentifierDNS then Some errInvalidIdentifier
     else if Value ident = [] then Some errEmptyName
     else if HasPrefix (Value ident) ''*.'' then Some errWildcardNotSupported
     else if \<not> list_all isDNSCharacter (Value ident) then Some errInvalidDNSCharacter
     else if length (Value ident) > 230 then Some errNameTooLong
     else if net_ParseIP env (Value ident) then Some errIPAddress
     else if Value ident \<noteq> [] \<and> last (Value ident) = CHR ''.'' then Some errNameEndsInDot
     else if length (Split (Value ident) CHR ''.'') > 10 then Some errTooManyLabels
     else if length (Split (Value ident) CHR ''.'') < 2 then Some errTooFewLabels
     else firstFailure rest)"
  unfolding nameChecks_def Let_def append_Cons append_Nil firstFailure_failsWith
    list_all_dnsAlphabet ..

lemma firstFailure_labels_tail:
  "firstFailure
     (concat (map (\<lambda>label. labelSyntaxChecks label @ labelIdnChecks env label) labels) @ rest) =
   (case labelLoop env labels of Some err \<Rightarrow> Some err | None \<Rightarrow> firstFailure rest)"
  unfolding firstFailure_append labelLoop_firstFailure ..

lemma WillingToIssue_firstFailure:
  "WillingToIssue env pa ident = firstFailure (labelwiseChecks env pa ident)"
proof -
  have "firstFailure (labelwiseChecks env pa ident) =
    (if Type ident \<noteq> IdentifierDNS then Some errInvalidIdentifier
     else if Value ident = [] then Some errEmptyName
     else if HasPrefix (Value ident) ''*.'' then Some errWildcardNotSupported
     else if \<not> list_all isDNSCharacter (Value ident) then Some errInvalidDNSCharacter
     else if length (Value ident) > 230 then Some errNameTooLong
     else if net_ParseIP env (Value ident) then Some errIPAddress
     else if Value ident \<noteq> [] \<and> last (Value ident) = CHR ''.'' then Some errNameEndsInDot
     else if length (Split (Value ident) CHR ''.'') > 10 then Some errTooManyLabels
     else if length (Split (Value ident) CHR ''.'') < 2 then Some errTooFewLabels
     else (case labelLoop env (Split (Value ident) CHR ''.'') of
             Some err \<Rightarrow> Some err
           | None \<Rightarrow> firstFailure (finalChecks env pa ident)))"
    unfolding labelwiseChecks_def firstFailure_nameChecks firstFailure_labels_tail ..
  also have "\<dots> = WillingToIssue env pa ident"
    unfolding firstFailure_finalChecks WillingToIssue_def Let_def HasSuffix_dot
      maxDNSIdentifierLength_def maxLabels_def
    by simp
  finally show ?thesis by simp
qed

section \<open>The two shuffle loops\<close>

lemma shuffleLoop_result:
  assumes "length sh = n" "length co = n" "i + length ps \<le> n" "\<forall>p\<in>set ps. p < length chs"
  shows "shuffleLoop chs i ps sh co =
           Some (take i sh @ map (\<lambda>p. chs ! p) ps @ drop (i + length ps) sh,
                 take i co @ map (\<lambda>j. [j]) [i..<i + length ps] @ drop (i + length ps) co)"
  using assms
proof (induction ps arbitrary: i sh co)
  case Nil
  then show ?case by simp
next
  case (Cons p ps)
  from Cons.prems have i: "i < n" and p: "p < length chs" by simp_all
  have "shuffleLoop chs (Suc i) ps (sh[i := chs ! p]) (co[i := [i]]) =
      Some (take (Suc i) (sh[i := chs ! p]) @ map (\<lambda>p. chs ! p) ps @
              drop (Suc i + length ps) (sh[i := chs ! p]),
            take (Suc i) (co[i := [i]]) @ map (\<lambda>j. [j]) [Suc i..<Suc i + length ps] @
              drop (Suc i + length ps) (co[i := [i]]))"
    using Cons.prems by (intro Cons.IH) simp_all
  moreover have "take (Suc i) (sh[i := chs ! p]) = take i sh @ [chs ! p]"
    using i Cons.prems(1) by (simp add: take_Suc_conv_app_nth)
  moreover have "take (Suc i) (co[i := [i]]) = take i co @ [[i]]"
    using i Cons.prems(2) by (simp add: take_Suc_conv_app_nth)
  moreover have "[i..<i + length (p # ps)] = i # [Suc i..<Suc i + length ps]"
    by (simp add: upt_rec)
  ultimately show ?case
    using i p Cons.prems(1,2) by simp
qed

lemma comboLoop_result:
  assumes "length sc = n" "i + length ps \<le> n" "\<forall>p\<in>set ps. p < length combos"
  shows "comboLoop combos i ps sc =
           Some (take i sc @ map (\<lambda>p. combos ! p) ps @ drop (i + length ps) sc)"
  using assms
proof (induction ps arbitrary: i sc)
  case Nil
  then show ?case by simp
next
  case (Cons p ps)
  from Cons.prems have i: "i < n" and p: "p < length combos" by simp_all
  have "comboLoop combos (Suc i) ps (sc[i := combos ! p]) =
      Some (take (Suc i) (sc[i := combos ! p]) @ map (\<lambda>p. combos ! p) ps @
              drop (Suc i + length ps) (sc[i := combos ! p]))"
    using Cons.prems by (intro Cons.IH) simp_all
  moreover have "take (Suc i) (sc[i := combos ! p]) = take i sc @ [combos ! p]"
    using i Cons.prems(1) by (simp add: take_Suc_conv_app_nth)
  ultimately show ?case
    using i p Cons.prems(1) by simp
qed

lemma perm_facts:
  assumes "mset ps = mset [0..<n]"
  shows "length ps = n" and "\<forall>p\<in>set ps. p < n"
proof -
  from assms have "size (mset ps) = size (mset [0..<n])" by simp
  then show "length ps = n" by simp
  from assms have "set_mset (mset ps) = set_mset (mset [0..<n])" by simp
  then show "\<forall>p\<in>set ps. p < n" by auto
qed

lemma shuffle_whole:
  assumes "mset ps = mset [0..<length chs]"
  shows "shuffleLoop chs 0 ps (replicate (length chs) z) (replicate (length chs) []) =
           Some (map (\<lambda>p. chs ! p) ps, map (\<lambda>j. [j]) [0..<length chs])"
  using shuffleLoop_result[of "replicate (length chs) z" "length chs"
      "replicate (length chs) []" 0 ps chs] perm_facts[OF assms]
  by simp

lemma combo_whole:
  assumes "mset ps = mset [0..<n]"
  shows "comboLoop (map (\<lambda>j. [j]) [0..<n]) 0 ps (replicate n []) = Some (map (\<lambda>p. [p]) ps)"
proof -
  have "comboLoop (map (\<lambda>j. [j]) [0..<n]) 0 ps (replicate n []) =
      Some (map (\<lambda>p. map (\<lambda>j. [j]) [0..<n] ! p) ps)"
    using comboLoop_result[of "replicate n []" n 0 ps "map (\<lambda>j. [j]) [0..<n]"]
      perm_facts[OF assms]
    by simp
  moreover have "map (\<lambda>p. map (\<lambda>j. [j]) [0..<n] ! p) ps = map (\<lambda>p. [p]) ps"
    using perm_facts(2)[OF assms] by simp
  ultimately show ?thesis by simp
qed

text \<open>
  With a generator that keeps its contract, a call that gets past the selection returns
  the selected challenges rearranged by the first draw and the singleton combinations
  of the second draw.
\<close>

lemma ChallengesFor_shuffled:
  assumes contract: "permContract env"
    and sel: "selectChallenges env pa identifier regID revalidation draws = Inr chs"
  shows "ChallengesFor env pa identifier regID revalidation draws =
     (Some (map (\<lambda>p. chs ! p) (fst (rand_Perm env (pseudoRNG pa) (length chs))),
            map (\<lambda>p. [p])
              (fst (rand_Perm env (snd (rand_Perm env (pseudoRNG pa) (length chs))) (length chs))),
            None),
      pa\<lparr> pseudoRNG :=
            snd (rand_Perm env (snd (rand_Perm env (pseudoRNG pa) (length chs))) (length chs)) \<rparr>)"
proof -
  obtain p1 r1 where d1: "rand_Perm env (pseudoRNG pa) (length chs) = (p1, r1)"
    by (cases "rand_Perm env (pseudoRNG pa) (length chs)")
  obtain p2 r2 where d2: "rand_Perm env r1 (length chs) = (p2, r2)"
    by (cases "rand_Perm env r1 (length chs)")
  from contract d1 have m1: "mset p1 = mset [0..<length chs]"
    unfolding permContract_def by (metis fst_conv)
  from contract d2 have m2: "mset p2 = mset [0..<length chs]"
    unfolding permContract_def by (metis fst_conv)
  show ?thesis
    unfolding ChallengesFor_def sel
    by (simp add: d1 d2 shuffle_whole[OF m1] combo_whole[OF m2])
qed

section \<open>Selecting challenges\<close>

lemma mset_rotate1_eq: "mset (rotate1 xs) = mset xs"
  by (cases xs) simp_all

lemma mset_rotate_eq: "mset (rotate n xs) = mset xs"
  by (induction n) (simp_all add: mset_rotate1_eq)

lemma example_contract: "permContract (exampleEnv doc)"
  unfolding permContract_def exampleEnv_def
  by (simp only: collaborators.simps fst_conv mset_rotate_eq) simp

lemma ChallengeTypeEnabled_iff:
  "ChallengeTypeEnabled pa t regID \<longleftrightarrow>
     lookup (enabledChallenges pa) t \<or> lookup (whitelistFor pa t) regID"
  by (cases "whitelistFor pa t") (auto simp: ChallengeTypeEnabled_def lookup_def)

lemma select_wildcard_enabled:
  "HasPrefix (Value identifier) ''*.'' \<Longrightarrow> ChallengeTypeEnabled pa ChallengeTypeDNS01 regID \<Longrightarrow>
   \<exists>k token. selectChallenges env pa identifier regID revalidation draws =
              Inr [DNSChallenge01 draws k token]"
  by (auto simp: selectChallenges_def Let_def)

lemma select_wildcard_disabled:
  "HasPrefix (Value identifier) ''*.'' \<Longrightarrow> \<not> ChallengeTypeEnabled pa ChallengeTypeDNS01 regID \<Longrightarrow>
   selectChallenges env pa identifier regID revalidation draws = Inl errWildcardNeedsDNS01"
  by (simp add: selectChallenges_def)

lemma select_error:
  "selectChallenges env pa identifier regID revalidation draws = Inl err \<Longrightarrow>
   HasPrefix (Value identifier) ''*.'' \<and> \<not> ChallengeTypeEnabled pa ChallengeTypeDNS01 regID"
  by (auto simp: selectChallenges_def Let_def split: if_splits)

lemma perm_one: "mset ps = mset [0..<Suc 0] \<Longrightarrow> ps = [0]"
  by (cases ps) (auto simp: mset_eq_length dest: mset_eq_length)

text \<open>What the two loops return is a rearrangement of what was selected.\<close>

lemma shuffle_permutes:
  assumes contract: "permContract env"
    and sel: "selectChallenges env pa identifier regID revalidation draws = Inr selected"
  shows "\<exists>shuffled combinations pa'.
           ChallengesFor env pa identifier regID revalidation draws =
             (Some (shuffled, combinations, None), pa') \<and>
           mset shuffled = mset selected \<and>
           length shuffled = length selected \<and>
           length combinations = length selected \<and>
           (\<forall>c\<in>set combinations. \<exists>i. c = [i]) \<and>
           mset (concat combinations) = mset [0..<length selected]"
proof -
  let ?n = "length selected"
  let ?p1 = "fst (rand_Perm env (pseudoRNG pa) ?n)"
  let ?r1 = "snd (rand_Perm env (pseudoRNG pa) ?n)"
  let ?p2 = "fst (rand_Perm env ?r1 ?n)"
  from contract have m1: "mset ?p1 = mset [0..<?n]" and m2: "mset ?p2 = mset [0..<?n]"
    unfolding permContract_def by blast+
  have "mset (map (\<lambda>p. selected ! p) ?p1) = image_mset (\<lambda>p. selected ! p) (mset [0..<?n])"
    using m1 by (metis mset_map)
  also have "\<dots> = mset (map (\<lambda>p. selected ! p) [0..<?n])"
    by (simp only: mset_map)
  also have "\<dots> = mset selected"
    by (simp only: map_nth)
  finally have a: "mset (map (\<lambda>p. selected ! p) ?p1) = mset selected" .
  have b: "length (map (\<lambda>p. selected ! p) ?p1) = ?n"
    using perm_facts(1)[OF m1] by simp
  have c: "length (map (\<lambda>p. [p]) ?p2) = ?n"
    using perm_facts(1)[OF m2] by simp
  have d: "\<forall>c\<in>set (map (\<lambda>p. [p]) ?p2). \<exists>i. c = [i]"
    by auto
  have "concat (map (\<lambda>p. [p]) ?p2) = ?p2"
    by (induction ?p2) simp_all
  then have e: "mset (concat (map (\<lambda>p. [p]) ?p2)) = mset [0..<?n]"
    using m2 by (simp only:)
  from ChallengesFor_shuffled[OF contract sel] a b c d e show ?thesis
    by blast
qed

section \<open>Suffix and exact blacklist matching\<close>

lemma checkHostLists_loaded:
  "blacklist pa \<noteq> None \<Longrightarrow>
   checkHostLists pa d =
     (if (\<exists>s\<in>set (labelSuffixes d). lookup (blacklist pa) s) \<or> lookup (exactBlacklist pa) d
      then Some errBlacklisted else None)"
  by (cases "blacklist pa") (auto simp: checkHostLists_def suffixLoop_labelSuffixes)

text \<open>
  C1. Once a hostname policy has been loaded, \<open>checkHostLists\<close> on a domain fails with
  the blacklisted error if and only if one of the label suffixes of the domain is in
  the loaded blacklist or the domain itself is in the loaded exact blacklist, and
  otherwise it succeeds. The label suffixes of a domain are the domain and every part
  of it that follows a dot. For an identifier that passes all other checks,
  \<open>WillingToIssue\<close> returns what \<open>checkHostLists\<close> returns. A blacklist entry
  \<open>example.com\<close> blocks \<open>example.com\<close>, \<open>foo.example.com\<close> and
  \<open>a.b.example.com\<close>, and does not block \<open>myexample.com\<close>; an exact entry blocks
  itself, and a name \<open>other.D\<close> that is not an exact entry is blocked only when it
  matches the suffix blacklist.
\<close>

theorem checkHostLists_blacklisted_iff:
  assumes load: "loadHostnamePolicy env pa0 b = (None, pa)"
    and doc: "json_Unmarshal env b = Inr bl"
  shows "(checkHostLists pa d = Some errBlacklisted \<longleftrightarrow>
            (\<exists>s\<in>set (labelSuffixes d). s \<in> set (Blacklist bl)) \<or> d \<in> set (ExactBlacklist bl))
       \<and> (checkHostLists pa d \<noteq> Some errBlacklisted \<longrightarrow> checkHostLists pa d = None)
       \<and> set (labelSuffixes d) = {d} \<union> {s. \<exists>p. d = p @ ''.'' @ s}
       \<and> (WillingToIssue env pa1 ident = None \<longrightarrow>
            WillingToIssue env pa ident = checkHostLists pa (Value ident))
       \<and> (''example.com'' \<in> set (Blacklist bl) \<longrightarrow>
            checkHostLists pa ''example.com'' = Some errBlacklisted \<and>
            checkHostLists pa ''foo.example.com'' = Some errBlacklisted \<and>
            checkHostLists pa ''a.b.example.com'' = Some errBlacklisted)
       \<and> (Blacklist bl = [''example.com''] \<and> ''myexample.com'' \<notin> set (ExactBlacklist bl) \<longrightarrow>
            checkHostLists pa ''myexample.com'' = None)
       \<and> (d \<in> set (ExactBlacklist bl) \<longrightarrow> checkHostLists pa d = Some errBlacklisted)
       \<and> (other @ ''.'' @ d \<notin> set (ExactBlacklist bl) \<longrightarrow>
            (checkHostLists pa (other @ ''.'' @ d) = Some errBlacklisted \<longleftrightarrow>
             (\<exists>s\<in>set (labelSuffixes (other @ ''.'' @ d)). s \<in> set (Blacklist bl))))"
proof -
  from load_success[OF load] doc
  have nn: "blacklist pa \<noteq> None"
    and bl: "\<And>k. lookup (blacklist pa) k \<longleftrightarrow> k \<in> set (Blacklist bl)"
    and ex: "\<And>k. lookup (exactBlacklist pa) k \<longleftrightarrow> k \<in> set (ExactBlacklist bl)"
    by auto
  have chk: "checkHostLists pa x =
      (if (\<exists>s\<in>set (labelSuffixes x). s \<in> set (Blacklist bl)) \<or> x \<in> set (ExactBlacklist bl)
       then Some errBlacklisted else None)" for x
    using checkHostLists_loaded[OF nn, of x] by (simp add: bl ex)
  note sfx = labelSuffixes_examples
  have 1: "checkHostLists pa d = Some errBlacklisted \<longleftrightarrow>
            (\<exists>s\<in>set (labelSuffixes d). s \<in> set (Blacklist bl)) \<or> d \<in> set (ExactBlacklist bl)"
    by (simp add: chk)
  have 2: "checkHostLists pa d \<noteq> Some errBlacklisted \<longrightarrow> checkHostLists pa d = None"
    by (simp add: chk)
  have 3: "set (labelSuffixes d) = {d} \<union> {s. \<exists>p. d = p @ ''.'' @ s}"
    by (rule set_labelSuffixes)
  have 4: "WillingToIssue env pa1 ident = None \<longrightarrow>
            WillingToIssue env pa ident = checkHostLists pa (Value ident)"
    using WillingToIssue_defers by blast
  have 5: "''example.com'' \<in> set (Blacklist bl) \<longrightarrow>
            checkHostLists pa ''example.com'' = Some errBlacklisted \<and>
            checkHostLists pa ''foo.example.com'' = Some errBlacklisted \<and>
            checkHostLists pa ''a.b.example.com'' = Some errBlacklisted"
    by (simp add: chk sfx)
  have 6: "Blacklist bl = [''example.com''] \<and> ''myexample.com'' \<notin> set (ExactBlacklist bl) \<longrightarrow>
            checkHostLists pa ''myexample.com'' = None"
    by (simp add: chk sfx)
  have 7: "d \<in> set (ExactBlacklist bl) \<longrightarrow> checkHostLists pa d = Some errBlacklisted"
    by (simp add: chk)
  have 8: "other @ ''.'' @ d \<notin> set (ExactBlacklist bl) \<longrightarrow>
            (checkHostLists pa (other @ ''.'' @ d) = Some errBlacklisted \<longleftrightarrow>
             (\<exists>s\<in>set (labelSuffixes (other @ ''.'' @ d)). s \<in> set (Blacklist bl)))"
    by (simp add: chk)
  from 1 2 3 4 5 6 7 8 show ?thesis by blast
qed

theorem checkHostLists_blacklisted_iff_witness:
  "loadHostnamePolicy (exampleEnv examplePolicy) (New (exampleEnv examplePolicy) None) ''policy''
     = (None, exampleAuthority)
   \<and> json_Unmarshal (exampleEnv examplePolicy) ''policy'' = Inr examplePolicy
   \<and> WillingToIssue (exampleEnv examplePolicy)
       ((New (exampleEnv examplePolicy) None)\<lparr> blacklist := Some Map.empty \<rparr>)
       \<lparr> Type = IdentifierDNS, Value = ''foo.example.com'' \<rparr> = None
   \<and> WillingToIssue (exampleEnv examplePolicy) exampleAuthority
       \<lparr> Type = IdentifierDNS, Value = ''foo.example.com'' \<rparr> = Some errBlacklisted
   \<and> checkHostLists exampleAuthority ''foo.example.com'' = Some errBlacklisted
   \<and> checkHostLists exampleAuthority ''a.b.example.com'' = Some errBlacklisted
   \<and> checkHostLists exampleAuthority ''myexample.com'' = None
   \<and> ''www.foo.example.com'' \<notin> set (ExactBlacklist examplePolicy)
   \<and> checkHostLists exampleAuthority ''www.foo.example.com'' = Some errBlacklisted"
proof -
  note T = checkHostLists_blacklisted_iff[OF example_load example_doc,
      of "''foo.example.com''"
         "(New (exampleEnv examplePolicy) None)\<lparr> blacklist := Some Map.empty \<rparr>"
         "\<lparr> Type = IdentifierDNS, Value = ''foo.example.com'' \<rparr>" "''www''"]
  have bl: "Blacklist examplePolicy = [''example.com'']"
    and ex: "ExactBlacklist examplePolicy = [''evil.example.org'']"
    by (simp_all add: examplePolicy_def)
  from T have t1: "checkHostLists exampleAuthority ''foo.example.com'' = Some errBlacklisted
      \<longleftrightarrow> (\<exists>s\<in>set (labelSuffixes ''foo.example.com''). s \<in> set (Blacklist examplePolicy))
           \<or> ''foo.example.com'' \<in> set (ExactBlacklist examplePolicy)"
    by (rule conjunct1)
  have c1: "checkHostLists exampleAuthority ''foo.example.com'' = Some errBlacklisted"
    unfolding t1 by (simp add: labelSuffixes_examples bl)
  from T example_valid_foo
  have c2: "WillingToIssue (exampleEnv examplePolicy) exampleAuthority
       \<lparr> Type = IdentifierDNS, Value = ''foo.example.com'' \<rparr> = Some errBlacklisted"
    using c1 by simp
  from T have "''example.com'' \<in> set (Blacklist examplePolicy) \<longrightarrow>
            checkHostLists exampleAuthority ''example.com'' = Some errBlacklisted \<and>
            checkHostLists exampleAuthority ''foo.example.com'' = Some errBlacklisted \<and>
            checkHostLists exampleAuthority ''a.b.example.com'' = Some errBlacklisted"
    by blast
  then have c3: "checkHostLists exampleAuthority ''a.b.example.com'' = Some errBlacklisted"
    by (simp add: bl)
  from T have "Blacklist examplePolicy = [''example.com''] \<and>
      ''myexample.com'' \<notin> set (ExactBlacklist examplePolicy) \<longrightarrow>
            checkHostLists exampleAuthority ''myexample.com'' = None"
    by blast
  then have c4: "checkHostLists exampleAuthority ''myexample.com'' = None"
    by (simp add: bl ex)
  have c5: "''www.foo.example.com'' \<notin> set (ExactBlacklist examplePolicy)"
    by (simp add: ex)
  from T have "''www'' @ ''.'' @ ''foo.example.com'' \<notin> set (ExactBlacklist examplePolicy) \<longrightarrow>
            (checkHostLists exampleAuthority (''www'' @ ''.'' @ ''foo.example.com'') = Some errBlacklisted \<longleftrightarrow>
             (\<exists>s\<in>set (labelSuffixes (''www'' @ ''.'' @ ''foo.example.com'')). s \<in> set (Blacklist examplePolicy)))"
    by blast
  then have c6: "checkHostLists exampleAuthority ''www.foo.example.com'' = Some errBlacklisted"
    by (simp add: bl ex labelSuffixes_examples)
  from example_load example_doc example_valid_foo c1 c2 c3 c4 c5 c6 show ?thesis
    by blast
qed

section \<open>No policy loaded: fail closed\<close>

lemma reloadAll_all_failed:
  "reloadAll env pa bs = (errs, pa') \<Longrightarrow> None \<notin> set errs \<Longrightarrow> pa' = pa"
proof (induction bs arbitrary: pa errs pa')
  case Nil
  then show ?case by simp
next
  case (Cons b bs)
  obtain e p1 where l: "loadHostnamePolicy env pa b = (e, p1)"
    by (cases "loadHostnamePolicy env pa b")
  obtain es p2 where r: "reloadAll env p1 bs = (es, p2)"
    by (cases "reloadAll env p1 bs")
  from Cons.prems l r have eq: "errs = e # es" "pa' = p2" by auto
  from eq Cons.prems(2) have "e \<noteq> None" by (cases e) auto
  from eq Cons.prems(2) have "None \<notin> set es" by auto
  from \<open>e \<noteq> None\<close> l load_failure_unchanged[of env pa b] have "p1 = pa" by simp
  with Cons.IH[OF r[unfolded \<open>p1 = pa\<close>] \<open>None \<notin> set es\<close>] r eq show ?case by simp
qed

lemma WillingToIssue_not_loaded:
  "blacklist pa = None \<Longrightarrow> WillingToIssue env pa ident \<noteq> None"
  by (auto simp: WillingToIssue_def checkHostLists_def Let_def split: option.splits)

lemma WillingToIssueWildcard_not_loaded:
  "blacklist pa = None \<Longrightarrow> WillingToIssueWildcard env pa ident \<noteq> None"
  using WillingToIssue_not_loaded[of pa env]
  by (auto simp: WillingToIssueWildcard_def checkWildcardHostList_def Let_def
      split: option.splits)

text \<open>
  C2. As long as no load of the hostname policy has succeeded since \<open>New\<close>,
  whatever loads were attempted, \<open>checkHostLists\<close> and
  \<open>checkWildcardHostList\<close> fail on every domain with the not-yet-loaded error, and
  neither \<open>WillingToIssue\<close> nor \<open>WillingToIssueWildcard\<close> returns success on any
  identifier; an identifier that passes all other checks gets the not-yet-loaded error,
  which is not the blacklisted error.
\<close>

theorem not_loaded_fails_closed:
  assumes hist: "reloadAll env (New env challengeTypes) bs = (errs, pa)"
    and failed: "None \<notin> set errs"
  shows "checkHostLists pa d = Some errNotLoaded
       \<and> checkWildcardHostList pa d = Some errNotLoaded
       \<and> WillingToIssue env pa ident \<noteq> None
       \<and> WillingToIssueWildcard env pa ident \<noteq> None
       \<and> (WillingToIssue env pa1 ident = None \<longrightarrow>
            WillingToIssue env pa ident = Some errNotLoaded)
       \<and> errNotLoaded \<noteq> errBlacklisted"
proof -
  from reloadAll_all_failed[OF hist failed] have "blacklist pa = None"
    by (simp add: New_def)
  then have a: "checkHostLists pa d = Some errNotLoaded"
    and a': "checkHostLists pa (Value ident) = Some errNotLoaded"
    and b: "checkWildcardHostList pa d = Some errNotLoaded"
    and c: "WillingToIssue env pa ident \<noteq> None"
    and d: "WillingToIssueWildcard env pa ident \<noteq> None"
    using WillingToIssue_not_loaded[of pa env ident]
      WillingToIssueWildcard_not_loaded[of pa env ident]
    by (simp_all add: checkHostLists_def checkWildcardHostList_def)
  have e: "WillingToIssue env pa1 ident = None \<longrightarrow>
            WillingToIssue env pa ident = Some errNotLoaded"
    using WillingToIssue_defers[of env pa1 ident pa] a' by simp
  have f: "errNotLoaded \<noteq> errBlacklisted"
    by (simp add: errNotLoaded_def errBlacklisted_def RejectedIdentifierError_def)
  from a b c d e f show ?thesis by blast
qed

theorem not_loaded_fails_closed_witness:
  "reloadAll (exampleEnv emptyPolicy) (New (exampleEnv emptyPolicy) None) [''policy'', []]
     = ([Some errNoEntries, Some (Errorf ''unexpected end of JSON input'' [])],
        New (exampleEnv emptyPolicy) None)
   \<and> None \<notin> set [Some errNoEntries, Some (Errorf ''unexpected end of JSON input'' [])]
   \<and> checkHostLists (New (exampleEnv emptyPolicy) None) ''foo.example.com'' = Some errNotLoaded
   \<and> checkWildcardHostList (New (exampleEnv emptyPolicy) None) ''foo.example.com''
       = Some errNotLoaded
   \<and> WillingToIssue (exampleEnv emptyPolicy) (New (exampleEnv emptyPolicy) None)
       \<lparr> Type = IdentifierDNS, Value = ''foo.example.com'' \<rparr> = Some errNotLoaded
   \<and> WillingToIssueWildcard (exampleEnv emptyPolicy) (New (exampleEnv emptyPolicy) None)
       \<lparr> Type = IdentifierDNS, Value = ''foo.example.com'' \<rparr> \<noteq> None"
proof -
  have h: "reloadAll (exampleEnv emptyPolicy) (New (exampleEnv emptyPolicy) None) [''policy'', []]
     = ([Some errNoEntries, Some (Errorf ''unexpected end of JSON input'' [])],
        New (exampleEnv emptyPolicy) None)"
    by (simp add: loadHostnamePolicy_def exampleEnv_def emptyPolicy_def)
  have n: "None \<notin> set [Some errNoEntries, Some (Errorf ''unexpected end of JSON input'' [])]"
    by simp
  note v = example_valid_foo[of emptyPolicy]
  from not_loaded_fails_closed[OF h n, of "''foo.example.com''"
      "\<lparr> Type = IdentifierDNS, Value = ''foo.example.com'' \<rparr>"
      "(New (exampleEnv emptyPolicy) None)\<lparr> blacklist := Some Map.empty \<rparr>"] v h n
  show ?thesis by blast
qed

section \<open>A load replaces the whole policy or nothing\<close>

lemma load_no_entries:
  "json_Unmarshal env b = Inr bl \<Longrightarrow> Blacklist bl = [] \<Longrightarrow>
   loadHostnamePolicy env pa b = (Some errNoEntries, pa)"
  by (simp add: loadHostnamePolicy_def)

lemma load_malformed:
  assumes doc: "json_Unmarshal env b = Inr bl" and ne: "Blacklist bl \<noteq> []"
    and bad: "\<exists>v\<in>set (ExactBlacklist bl). length (Split v CHR ''.'') < 2"
  shows "\<exists>v\<in>set (ExactBlacklist bl). length (Split v CHR ''.'') < 2 \<and>
           loadHostnamePolicy env pa b = (Some (errMalformedExact v), pa)"
proof (cases "exactLoop (ExactBlacklist bl) Map.empty Map.empty")
  case (Inl err)
  from exactLoop_Inl[OF Inl] obtain v where
    v: "v \<in> set (ExactBlacklist bl)" "CHR ''.'' \<notin> set v" "err = errMalformedExact v"
    by auto
  have "loadHostnamePolicy env pa b = (Some (errMalformedExact v), pa)"
    using doc ne Inl v by (simp add: loadHostnamePolicy_def Let_def)
  with v show ?thesis by (auto simp: length_Split_lt_2)
next
  case (Inr r)
  obtain e w where "r = (e, w)" by (cases r)
  with Inr exactLoop_Inr[of "ExactBlacklist bl" Map.empty Map.empty e w] bad
  show ?thesis by (auto simp: length_Split_lt_2)
qed

lemma load_replaces:
  assumes "fst (loadHostnamePolicy env pa b) = None"
  shows "\<exists>bl nameMap exactMap wildMap.
           json_Unmarshal env b = Inr bl \<and>
           snd (loadHostnamePolicy env pa b) =
             pa\<lparr> blacklist := Some nameMap, exactBlacklist := Some exactMap,
                 wildcardExactBlacklist := Some wildMap \<rparr> \<and>
           (\<forall>k. nameMap k = (if k \<in> set (Blacklist bl) then Some True else None)) \<and>
           (\<forall>k. exactMap k = (if k \<in> set (ExactBlacklist bl) then Some True else None)) \<and>
           (\<forall>k. wildMap k = (if k \<in> withoutFirstLabel ` set (ExactBlacklist bl)
                              then Some True else None))"
proof -
  from assms obtain bl where bl: "json_Unmarshal env b = Inr bl"
    by (auto simp: loadHostnamePolicy_def split: sum.splits)
  from assms bl have ne: "Blacklist bl \<noteq> []"
    by (auto simp: loadHostnamePolicy_def split: if_splits)
  from assms bl ne obtain e w where
    ex: "exactLoop (ExactBlacklist bl) Map.empty Map.empty = Inr (e, w)"
    by (auto simp: loadHostnamePolicy_def Let_def split: sum.splits)
  from bl ne ex have res: "snd (loadHostnamePolicy env pa b) =
      pa\<lparr> blacklist := Some (nameLoop (Blacklist bl) Map.empty),
          exactBlacklist := Some e, wildcardExactBlacklist := Some w \<rparr>"
    by (simp add: loadHostnamePolicy_def Let_def)
  note L = exactLoop_Inr[OF ex]
  from L have dots: "\<forall>v\<in>set (ExactBlacklist bl). CHR ''.'' \<in> set v" by blast
  have wl: "(\<exists>v\<in>set (ExactBlacklist bl). SplitN v CHR ''.'' 2 ! 1 = k) \<longleftrightarrow>
            k \<in> withoutFirstLabel ` set (ExactBlacklist bl)" for k
  proof -
    have eq: "SplitN v CHR ''.'' 2 ! 1 = withoutFirstLabel v" if "v \<in> set (ExactBlacklist bl)" for v
      using that dots SplitN_2_rest[of "CHR ''.''" v] unfolding withoutFirstLabel_def by blast
    show ?thesis
    proof
      assume "\<exists>v\<in>set (ExactBlacklist bl). SplitN v CHR ''.'' 2 ! 1 = k"
      then obtain v where "v \<in> set (ExactBlacklist bl)" "SplitN v CHR ''.'' 2 ! 1 = k" by blast
      with eq[of v] show "k \<in> withoutFirstLabel ` set (ExactBlacklist bl)" by force
    next
      assume "k \<in> withoutFirstLabel ` set (ExactBlacklist bl)"
      then obtain v where "v \<in> set (ExactBlacklist bl)" "k = withoutFirstLabel v" by blast
      with eq[of v] show "\<exists>v\<in>set (ExactBlacklist bl). SplitN v CHR ''.'' 2 ! 1 = k" by force
    qed
  qed
  have "\<forall>k. w k = (if k \<in> withoutFirstLabel ` set (ExactBlacklist bl) then Some True else None)"
    using L wl by simp
  moreover have "\<forall>k. e k = (if k \<in> set (ExactBlacklist bl) then Some True else None)"
    using L by simp
  moreover have "\<forall>k. nameLoop (Blacklist bl) Map.empty k =
      (if k \<in> set (Blacklist bl) then Some True else None)"
    by (simp add: nameLoop_apply)
  ultimately show ?thesis using bl res by blast
qed

text \<open>
  C3. \<open>loadHostnamePolicy\<close> fails with the no-entries error when the decoded
  \<open>Blacklist\<close> is empty and leaves the authority as it was. It fails when some
  \<open>ExactBlacklist\<close> entry has fewer than two dot-delimited labels: with the
  malformed-entry error of such an entry once the \<open>Blacklist\<close> is not empty (the
  no-entries check comes first), and again the authority is as it was. Every load that
  returns an error, a decoding error included, leaves the authority unchanged; a load
  that returns no error has replaced all three sets by the sets of the document: the
  blacklist entries, the exact entries, and the exact entries minus their leftmost label.
\<close>

theorem loadHostnamePolicy_all_or_nothing:
  "(json_Unmarshal env b = Inr bl \<and> Blacklist bl = [] \<longrightarrow>
      loadHostnamePolicy env pa b = (Some errNoEntries, pa))
 \<and> (json_Unmarshal env b = Inr bl \<and>
      (\<exists>v\<in>set (ExactBlacklist bl). length (Split v CHR ''.'') < 2) \<longrightarrow>
      fst (loadHostnamePolicy env pa b) \<noteq> None \<and>
      (Blacklist bl \<noteq> [] \<longrightarrow>
        (\<exists>v\<in>set (ExactBlacklist bl). length (Split v CHR ''.'') < 2 \<and>
           loadHostnamePolicy env pa b = (Some (errMalformedExact v), pa))))
 \<and> (fst (loadHostnamePolicy env pa b) \<noteq> None \<longrightarrow> snd (loadHostnamePolicy env pa b) = pa)
 \<and> (fst (loadHostnamePolicy env pa b) = None \<longrightarrow>
      (\<exists>bl nameMap exactMap wildMap.
           json_Unmarshal env b = Inr bl \<and>
           snd (loadHostnamePolicy env pa b) =
             pa\<lparr> blacklist := Some nameMap, exactBlacklist := Some exactMap,
                 wildcardExactBlacklist := Some wildMap \<rparr> \<and>
           (\<forall>k. nameMap k = (if k \<in> set (Blacklist bl) then Some True else None)) \<and>
           (\<forall>k. exactMap k = (if k \<in> set (ExactBlacklist bl) then Some True else None)) \<and>
           (\<forall>k. wildMap k = (if k \<in> withoutFirstLabel ` set (ExactBlacklist bl)
                              then Some True else None))))"
proof -
  have 1: "json_Unmarshal env b = Inr bl \<and> Blacklist bl = [] \<longrightarrow>
      loadHostnamePolicy env pa b = (Some errNoEntries, pa)"
    using load_no_entries by blast
  have 2: "json_Unmarshal env b = Inr bl \<and>
      (\<exists>v\<in>set (ExactBlacklist bl). length (Split v CHR ''.'') < 2) \<longrightarrow>
      fst (loadHostnamePolicy env pa b) \<noteq> None \<and>
      (Blacklist bl \<noteq> [] \<longrightarrow>
        (\<exists>v\<in>set (ExactBlacklist bl). length (Split v CHR ''.'') < 2 \<and>
           loadHostnamePolicy env pa b = (Some (errMalformedExact v), pa)))"
  proof (intro impI, elim conjE)
    assume doc: "json_Unmarshal env b = Inr bl"
      and bad: "\<exists>v\<in>set (ExactBlacklist bl). length (Split v CHR ''.'') < 2"
    show "fst (loadHostnamePolicy env pa b) \<noteq> None \<and>
      (Blacklist bl \<noteq> [] \<longrightarrow>
        (\<exists>v\<in>set (ExactBlacklist bl). length (Split v CHR ''.'') < 2 \<and>
           loadHostnamePolicy env pa b = (Some (errMalformedExact v), pa)))"
    proof (cases "Blacklist bl = []")
      case True
      then show ?thesis using load_no_entries[OF doc True, of pa] by simp
    next
      case False
      from load_malformed[OF doc False bad, of pa] False show ?thesis by auto
    qed
  qed
  have 3: "fst (loadHostnamePolicy env pa b) \<noteq> None \<longrightarrow> snd (loadHostnamePolicy env pa b) = pa"
    using load_failure_unchanged by blast
  from 1 2 3 load_replaces[of env pa b] show ?thesis by blast
qed

theorem loadHostnamePolicy_all_or_nothing_witness:
  "loadHostnamePolicy (exampleEnv emptyPolicy) exampleAuthority ''policy''
     = (Some errNoEntries, exampleAuthority)
   \<and> checkHostLists (snd (loadHostnamePolicy (exampleEnv emptyPolicy) exampleAuthority ''policy''))
       ''foo.example.com'' = Some errBlacklisted
   \<and> loadHostnamePolicy (exampleEnv malformedPolicy) exampleAuthority ''policy''
     = (Some (errMalformedExact ''com''), exampleAuthority)
   \<and> fst (loadHostnamePolicy (exampleEnv malformedPolicy) exampleAuthority []) \<noteq> None
   \<and> snd (loadHostnamePolicy (exampleEnv malformedPolicy) exampleAuthority []) = exampleAuthority
   \<and> fst (loadHostnamePolicy (exampleEnv deepPolicy) exampleAuthority ''policy'') = None
   \<and> lookup (blacklist (snd (loadHostnamePolicy (exampleEnv deepPolicy) exampleAuthority ''policy'')))
       ''example.net''
   \<and> \<not> lookup (blacklist (snd (loadHostnamePolicy (exampleEnv deepPolicy) exampleAuthority ''policy'')))
       ''example.com''
   \<and> lookup (wildcardExactBlacklist
        (snd (loadHostnamePolicy (exampleEnv deepPolicy) exampleAuthority ''policy'')))
       (withoutFirstLabel ''a.b.example.com'')"
proof -
  have d1: "json_Unmarshal (exampleEnv emptyPolicy) ''policy'' = Inr emptyPolicy"
    and e1: "Blacklist emptyPolicy = []"
    by (simp_all add: exampleEnv_def emptyPolicy_def)
  from loadHostnamePolicy_all_or_nothing[of "exampleEnv emptyPolicy" "''policy''" emptyPolicy
      exampleAuthority] d1 e1
  have c1: "loadHostnamePolicy (exampleEnv emptyPolicy) exampleAuthority ''policy''
     = (Some errNoEntries, exampleAuthority)"
    by blast
  have "checkHostLists exampleAuthority ''foo.example.com'' = Some errBlacklisted"
    by code_simp
  with c1 have c2: "checkHostLists
      (snd (loadHostnamePolicy (exampleEnv emptyPolicy) exampleAuthority ''policy''))
       ''foo.example.com'' = Some errBlacklisted"
    by simp
  have d2: "json_Unmarshal (exampleEnv malformedPolicy) ''policy'' = Inr malformedPolicy"
    and e2: "Blacklist malformedPolicy \<noteq> []"
    and x2: "ExactBlacklist malformedPolicy = [''com'']"
    by (simp_all add: exampleEnv_def malformedPolicy_def)
  have l2: "length (Split ''com'' CHR ''.'') < 2"
    by simp
  from loadHostnamePolicy_all_or_nothing[of "exampleEnv malformedPolicy" "''policy''"
      malformedPolicy exampleAuthority] d2 e2 x2 l2
  have c3: "loadHostnamePolicy (exampleEnv malformedPolicy) exampleAuthority ''policy''
     = (Some (errMalformedExact ''com''), exampleAuthority)"
    by simp
  have c4: "fst (loadHostnamePolicy (exampleEnv malformedPolicy) exampleAuthority []) \<noteq> None"
    by (simp add: loadHostnamePolicy_def exampleEnv_def)
  from loadHostnamePolicy_all_or_nothing[of "exampleEnv malformedPolicy" "[]"
      malformedPolicy exampleAuthority] c4
  have c5: "snd (loadHostnamePolicy (exampleEnv malformedPolicy) exampleAuthority [])
      = exampleAuthority"
    by blast
  note c6 = deep_load_ok[of exampleAuthority]
  have d3: "json_Unmarshal (exampleEnv deepPolicy) ''policy'' = Inr deepPolicy"
    by (simp add: exampleEnv_def)
  from loadHostnamePolicy_all_or_nothing[of "exampleEnv deepPolicy" "''policy''"
      deepPolicy exampleAuthority] c6 d3
  obtain nameMap exactMap wildMap where
    s: "snd (loadHostnamePolicy (exampleEnv deepPolicy) exampleAuthority ''policy'') =
             exampleAuthority\<lparr> blacklist := Some nameMap, exactBlacklist := Some exactMap,
                 wildcardExactBlacklist := Some wildMap \<rparr>"
    and n: "\<forall>k. nameMap k = (if k \<in> set (Blacklist deepPolicy) then Some True else None)"
    and w: "\<forall>k. wildMap k = (if k \<in> withoutFirstLabel ` set (ExactBlacklist deepPolicy)
                              then Some True else None)"
    by auto
  have c7: "lookup (blacklist (snd (loadHostnamePolicy (exampleEnv deepPolicy) exampleAuthority
      ''policy''))) ''example.net''"
    and c8: "\<not> lookup (blacklist (snd (loadHostnamePolicy (exampleEnv deepPolicy) exampleAuthority
      ''policy''))) ''example.com''"
    using s n by (simp_all add: lookup_def deepPolicy_def)
  have c9: "lookup (wildcardExactBlacklist
        (snd (loadHostnamePolicy (exampleEnv deepPolicy) exampleAuthority ''policy'')))
       (withoutFirstLabel ''a.b.example.com'')"
    using s w by (simp add: lookup_def deepPolicy_def)
  from c1 c2 c3 c4 c5 c6 c7 c8 c9 show ?thesis by blast
qed

section \<open>The wildcard exact blacklist\<close>

lemma checkWildcardHostList_loaded:
  "blacklist pa \<noteq> None \<Longrightarrow>
   checkWildcardHostList pa d =
     (if lookup (wildcardExactBlacklist pa) d then Some errBlacklisted else None)"
  by (cases "blacklist pa") (auto simp: checkWildcardHostList_def)

lemma wildcard_rejected:
  "checkWildcardHostList pa base = Some errBlacklisted \<Longrightarrow>
   WillingToIssueWildcard env pa \<lparr> Type = IdentifierDNS, Value = ''*.'' @ base \<rparr> \<noteq> None"
  by (auto simp: WillingToIssueWildcard_def Let_def TrimPrefix_def HasPrefix_def Count_def
      split: option.splits)

lemma wildcard_blacklisted:
  "checkWildcardHostList pa base = Some errBlacklisted \<Longrightarrow> CHR ''*'' \<notin> set base \<Longrightarrow>
   iana_ExtractSuffix env base = Some tld \<Longrightarrow> tld \<noteq> base \<Longrightarrow>
   WillingToIssueWildcard env pa \<lparr> Type = IdentifierDNS, Value = ''*.'' @ base \<rparr>
     = Some errBlacklisted"
proof -
  assume c: "checkWildcardHostList pa base = Some errBlacklisted"
    and star: "CHR ''*'' \<notin> set base"
    and tld: "iana_ExtractSuffix env base = Some tld" "tld \<noteq> base"
  from star have "filter (\<lambda>x. x = CHR ''*'') base = []"
    by (induction base) auto
  then have "Count (''*.'' @ base) CHR ''*'' = 1"
    by (simp add: Count_def)
  with c tld show ?thesis
    by (auto simp: WillingToIssueWildcard_def Let_def TrimPrefix_def HasPrefix_def)
qed

lemma withoutFirstLabel_examples:
  "withoutFirstLabel ''evil.example.com'' = ''example.com''"
  "withoutFirstLabel ''a.b.example.com'' = ''b.example.com''"
  by code_simp+

text \<open>
  C4. After a successful load every \<open>ExactBlacklist\<close> entry has at least two
  labels and the entry minus its leftmost label is in \<open>wildcardExactBlacklist\<close>,
  which holds nothing else. \<open>checkWildcardHostList\<close> fails with the blacklisted
  error exactly when the base domain itself is in that set, and succeeds otherwise.
  With the exact entry \<open>evil.example.com\<close> loaded, \<open>example.com\<close> is in the set
  and \<open>WillingToIssueWildcard\<close> rejects \<open>*.example.com\<close>, with the blacklisted
  error when \<open>example.com\<close> has a public suffix other than itself. With the only
  exact entry \<open>a.b.example.com\<close>, the base \<open>b.example.com\<close> is blocked, while
  the deeper ancestor \<open>example.com\<close> and the descendant \<open>c.b.example.com\<close> are
  not.
\<close>

theorem wildcard_exact_blacklist:
  assumes load: "loadHostnamePolicy env pa0 b = (None, pa)"
    and doc: "json_Unmarshal env b = Inr bl"
  shows "(\<forall>v\<in>set (ExactBlacklist bl).
            2 \<le> length (Split v CHR ''.'') \<and>
            lookup (wildcardExactBlacklist pa) (withoutFirstLabel v))
       \<and> (checkWildcardHostList pa base = Some errBlacklisted \<longleftrightarrow>
            lookup (wildcardExactBlacklist pa) base)
       \<and> (checkWildcardHostList pa base \<noteq> Some errBlacklisted \<longrightarrow>
            checkWildcardHostList pa base = None)
       \<and> (lookup (wildcardExactBlacklist pa) base \<longleftrightarrow>
            base \<in> withoutFirstLabel ` set (ExactBlacklist bl))
       \<and> (''evil.example.com'' \<in> set (ExactBlacklist bl) \<longrightarrow>
            lookup (wildcardExactBlacklist pa) ''example.com'' \<and>
            WillingToIssueWildcard env pa \<lparr> Type = IdentifierDNS, Value = ''*.example.com'' \<rparr>
              \<noteq> None \<and>
            (\<forall>tld. iana_ExtractSuffix env ''example.com'' = Some tld \<and> tld \<noteq> ''example.com'' \<longrightarrow>
               WillingToIssueWildcard env pa
                 \<lparr> Type = IdentifierDNS, Value = ''*.example.com'' \<rparr> = Some errBlacklisted))
       \<and> (ExactBlacklist bl = [''a.b.example.com''] \<longrightarrow>
            checkWildcardHostList pa ''b.example.com'' = Some errBlacklisted \<and>
            checkWildcardHostList pa ''example.com'' = None \<and>
            checkWildcardHostList pa ''c.b.example.com'' = None)"
proof -
  from load_success[OF load] doc
  have nn: "blacklist pa \<noteq> None"
    and dots: "\<forall>v\<in>set (ExactBlacklist bl). CHR ''.'' \<in> set v"
    and wl: "\<And>k. lookup (wildcardExactBlacklist pa) k \<longleftrightarrow>
                  (\<exists>v\<in>set (ExactBlacklist bl). SplitN v CHR ''.'' 2 ! 1 = k)"
    by auto
  have eq: "SplitN v CHR ''.'' 2 ! 1 = withoutFirstLabel v" if "v \<in> set (ExactBlacklist bl)" for v
    using that dots SplitN_2_rest[of "CHR ''.''" v] unfolding withoutFirstLabel_def by blast
  have mem: "lookup (wildcardExactBlacklist pa) k \<longleftrightarrow>
               k \<in> withoutFirstLabel ` set (ExactBlacklist bl)" for k
  proof
    assume "lookup (wildcardExactBlacklist pa) k"
    then obtain v where "v \<in> set (ExactBlacklist bl)" "SplitN v CHR ''.'' 2 ! 1 = k"
      using wl by blast
    with eq[of v] show "k \<in> withoutFirstLabel ` set (ExactBlacklist bl)" by force
  next
    assume "k \<in> withoutFirstLabel ` set (ExactBlacklist bl)"
    then obtain v where "v \<in> set (ExactBlacklist bl)" "k = withoutFirstLabel v" by blast
    with eq[of v] have "\<exists>v\<in>set (ExactBlacklist bl). SplitN v CHR ''.'' 2 ! 1 = k" by force
    then show "lookup (wildcardExactBlacklist pa) k" using wl by blast
  qed
  note chk = checkWildcardHostList_loaded[OF nn]
  have 1: "\<forall>v\<in>set (ExactBlacklist bl).
            2 \<le> length (Split v CHR ''.'') \<and>
            lookup (wildcardExactBlacklist pa) (withoutFirstLabel v)"
  proof
    fix v assume v: "v \<in> set (ExactBlacklist bl)"
    with dots have "\<not> length (Split v CHR ''.'') < 2" by (simp add: length_Split_lt_2)
    moreover from v have "lookup (wildcardExactBlacklist pa) (withoutFirstLabel v)"
      unfolding mem by blast
    ultimately show "2 \<le> length (Split v CHR ''.'') \<and>
            lookup (wildcardExactBlacklist pa) (withoutFirstLabel v)" by simp
  qed
  have 2: "checkWildcardHostList pa base = Some errBlacklisted \<longleftrightarrow>
            lookup (wildcardExactBlacklist pa) base"
    by (simp add: chk)
  have 3: "checkWildcardHostList pa base \<noteq> Some errBlacklisted \<longrightarrow>
            checkWildcardHostList pa base = None"
    by (simp add: chk)
  have 5: "''evil.example.com'' \<in> set (ExactBlacklist bl) \<longrightarrow>
            lookup (wildcardExactBlacklist pa) ''example.com'' \<and>
            WillingToIssueWildcard env pa \<lparr> Type = IdentifierDNS, Value = ''*.example.com'' \<rparr>
              \<noteq> None \<and>
            (\<forall>tld. iana_ExtractSuffix env ''example.com'' = Some tld \<and> tld \<noteq> ''example.com'' \<longrightarrow>
               WillingToIssueWildcard env pa
                 \<lparr> Type = IdentifierDNS, Value = ''*.example.com'' \<rparr> = Some errBlacklisted)"
  proof
    assume "''evil.example.com'' \<in> set (ExactBlacklist bl)"
    then have "withoutFirstLabel ''evil.example.com'' \<in> withoutFirstLabel ` set (ExactBlacklist bl)"
      by blast
    then have l: "lookup (wildcardExactBlacklist pa) ''example.com''"
      unfolding mem by (simp add: withoutFirstLabel_examples)
    then have c: "checkWildcardHostList pa ''example.com'' = Some errBlacklisted"
      by (simp add: chk)
    have star: "CHR ''*'' \<notin> set ''example.com''" by simp
    from wildcard_rejected[OF c, of env] wildcard_blacklisted[OF c star, of env] l
    show "lookup (wildcardExactBlacklist pa) ''example.com'' \<and>
            WillingToIssueWildcard env pa \<lparr> Type = IdentifierDNS, Value = ''*.example.com'' \<rparr>
              \<noteq> None \<and>
            (\<forall>tld. iana_ExtractSuffix env ''example.com'' = Some tld \<and> tld \<noteq> ''example.com'' \<longrightarrow>
               WillingToIssueWildcard env pa
                 \<lparr> Type = IdentifierDNS, Value = ''*.example.com'' \<rparr> = Some errBlacklisted)"
      by simp
  qed
  have 6: "ExactBlacklist bl = [''a.b.example.com''] \<longrightarrow>
            checkWildcardHostList pa ''b.example.com'' = Some errBlacklisted \<and>
            checkWildcardHostList pa ''example.com'' = None \<and>
            checkWildcardHostList pa ''c.b.example.com'' = None"
    by (simp add: chk mem withoutFirstLabel_examples)
  from 1 2 3 mem[of base] 5 6 show ?thesis by blast
qed

lemma evil_load:
  "loadHostnamePolicy (exampleEnv evilPolicy) (New (exampleEnv evilPolicy) None) ''policy''
   = (None, evilAuthority)"
proof -
  have "fst (loadHostnamePolicy (exampleEnv evilPolicy)
               (New (exampleEnv evilPolicy) None) ''policy'') = None"
    by (simp add: loadHostnamePolicy_def exampleEnv_def evilPolicy_def Let_def numeral_2_eq_2)
  then show ?thesis
    unfolding evilAuthority_def by (metis prod.collapse)
qed

lemma deep_load:
  "loadHostnamePolicy (exampleEnv deepPolicy) (New (exampleEnv deepPolicy) None) ''policy''
   = (None, deepAuthority)"
  using deep_load_ok[of "New (exampleEnv deepPolicy) None"]
  unfolding deepAuthority_def by (metis prod.collapse)

theorem wildcard_exact_blacklist_witness:
  "loadHostnamePolicy (exampleEnv evilPolicy) (New (exampleEnv evilPolicy) None) ''policy''
     = (None, evilAuthority)
   \<and> json_Unmarshal (exampleEnv evilPolicy) ''policy'' = Inr evilPolicy
   \<and> ''evil.example.com'' \<in> set (ExactBlacklist evilPolicy)
   \<and> lookup (wildcardExactBlacklist evilAuthority) ''example.com''
   \<and> iana_ExtractSuffix (exampleEnv evilPolicy) ''example.com'' = Some ''com''
   \<and> WillingToIssueWildcard (exampleEnv evilPolicy) evilAuthority
       \<lparr> Type = IdentifierDNS, Value = ''*.example.com'' \<rparr> = Some errBlacklisted
   \<and> ExactBlacklist deepPolicy = [''a.b.example.com'']
   \<and> checkWildcardHostList deepAuthority ''b.example.com'' = Some errBlacklisted
   \<and> checkWildcardHostList deepAuthority ''example.com'' = None"
proof -
  have d1: "json_Unmarshal (exampleEnv evilPolicy) ''policy'' = Inr evilPolicy"
    and d2: "json_Unmarshal (exampleEnv deepPolicy) ''policy'' = Inr deepPolicy"
    by (simp_all add: exampleEnv_def)
  have m: "''evil.example.com'' \<in> set (ExactBlacklist evilPolicy)"
    and x: "ExactBlacklist deepPolicy = [''a.b.example.com'']"
    by (simp_all add: evilPolicy_def deepPolicy_def)
  have sfx: "iana_ExtractSuffix (exampleEnv evilPolicy) ''example.com'' = Some ''com''"
    by (simp add: exampleEnv_def exampleSuffix_def)
  note T1 = wildcard_exact_blacklist[OF evil_load d1, of "''example.com''"]
  note T2 = wildcard_exact_blacklist[OF deep_load d2, of "''example.com''"]
  from T1 m have c1: "lookup (wildcardExactBlacklist evilAuthority) ''example.com''"
    by blast
  from T1 m sfx have c2: "WillingToIssueWildcard (exampleEnv evilPolicy) evilAuthority
       \<lparr> Type = IdentifierDNS, Value = ''*.example.com'' \<rparr> = Some errBlacklisted"
    by simp
  from T2 x have c3: "checkWildcardHostList deepAuthority ''b.example.com'' = Some errBlacklisted"
    and c4: "checkWildcardHostList deepAuthority ''example.com'' = None"
    by blast+
  from evil_load d1 m c1 sfx c2 x c3 c4 show ?thesis by blast
qed

section \<open>The wildcard validator\<close>

lemma Count_star_prefix: "Count (''*.'' @ base) CHR ''*'' = Suc (Count base CHR ''*'')"
  by (simp add: Count_def)

lemma wildcard_base:
  assumes h: "HasPrefix raw ''*.''"
  shows "raw = ''*.'' @ TrimPrefix raw ''*.''"
proof -
  from h have t: "take (length ''*.'') raw = ''*.''"
    unfolding HasPrefix_def .
  have "take (length ''*.'') raw @ drop (length ''*.'') raw = raw"
    by (rule append_take_drop_id)
  then have "''*.'' @ drop (length ''*.'') raw = raw"
    unfolding t .
  moreover have "TrimPrefix raw ''*.'' = drop (length ''*.'') raw"
    unfolding TrimPrefix_def using h by (simp only: if_True)
  ultimately show ?thesis by (simp only:)
qed

text \<open>
  C5. \<open>WillingToIssueWildcard\<close>: an identifier that is not a DNS identifier gets
  the invalid-identifier error; a value with more than one \<open>*\<close> the too-many-wildcards
  error; a value with exactly one \<open>*\<close> that does not start with \<open>*.\<close> the
  malformed-wildcard error. A value with exactly one \<open>*\<close> that starts with
  \<open>*.\<close> is \<open>*.\<close> followed by the base domain, which holds no \<open>*\<close>;
  then a base domain without public suffix gets the not-public error, a base domain
  equal to its public suffix the TLD-wildcard error, otherwise an error of
  \<open>checkWildcardHostList\<close> on the base domain is returned, and when there is none
  the result is that of \<open>WillingToIssue\<close> on \<open>x.\<close> followed by the base
  domain. A value without \<open>*\<close> gets the result of \<open>WillingToIssue\<close> on the
  identifier itself.
\<close>

theorem WillingToIssueWildcard_cases:
  "(Type ident \<noteq> IdentifierDNS \<longrightarrow>
      WillingToIssueWildcard env pa ident = Some errInvalidIdentifier)
 \<and> (Type ident = IdentifierDNS \<and> 1 < Count (Value ident) CHR ''*'' \<longrightarrow>
      WillingToIssueWildcard env pa ident = Some errTooManyWildcards)
 \<and> (Type ident = IdentifierDNS \<and> Count (Value ident) CHR ''*'' = 1 \<and>
      \<not> HasPrefix (Value ident) ''*.'' \<longrightarrow>
      WillingToIssueWildcard env pa ident = Some errMalformedWildcard)
 \<and> (Type ident = IdentifierDNS \<and> Count (Value ident) CHR ''*'' = 1 \<and>
      HasPrefix (Value ident) ''*.'' \<longrightarrow>
      Value ident = ''*.'' @ TrimPrefix (Value ident) ''*.'' \<and>
      CHR ''*'' \<notin> set (TrimPrefix (Value ident) ''*.''))
 \<and> (Type ident = IdentifierDNS \<and> Count (Value ident) CHR ''*'' = 1 \<and>
      Value ident = ''*.'' @ baseDomain \<longrightarrow>
      (iana_ExtractSuffix env baseDomain = None \<longrightarrow>
         WillingToIssueWildcard env pa ident = Some errNonPublic) \<and>
      (iana_ExtractSuffix env baseDomain = Some baseDomain \<longrightarrow>
         WillingToIssueWildcard env pa ident = Some errICANNTLDWildcard) \<and>
      (\<forall>tld. iana_ExtractSuffix env baseDomain = Some tld \<and> tld \<noteq> baseDomain \<longrightarrow>
         (\<forall>err. checkWildcardHostList pa baseDomain = Some err \<longrightarrow>
            WillingToIssueWildcard env pa ident = Some err) \<and>
         (checkWildcardHostList pa baseDomain = None \<longrightarrow>
            WillingToIssueWildcard env pa ident =
              WillingToIssue env pa \<lparr> Type = IdentifierDNS, Value = ''x.'' @ baseDomain \<rparr>)))
 \<and> (Type ident = IdentifierDNS \<and> Count (Value ident) CHR ''*'' = 0 \<longrightarrow>
      WillingToIssueWildcard env pa ident = WillingToIssue env pa ident)"
proof -
  have 1: "Type ident \<noteq> IdentifierDNS \<longrightarrow>
      WillingToIssueWildcard env pa ident = Some errInvalidIdentifier"
    by (simp add: WillingToIssueWildcard_def)
  have 2: "Type ident = IdentifierDNS \<and> 1 < Count (Value ident) CHR ''*'' \<longrightarrow>
      WillingToIssueWildcard env pa ident = Some errTooManyWildcards"
    by (simp add: WillingToIssueWildcard_def)
  have 3: "Type ident = IdentifierDNS \<and> Count (Value ident) CHR ''*'' = 1 \<and>
      \<not> HasPrefix (Value ident) ''*.'' \<longrightarrow>
      WillingToIssueWildcard env pa ident = Some errMalformedWildcard"
    by (simp add: WillingToIssueWildcard_def)
  have 4: "Type ident = IdentifierDNS \<and> Count (Value ident) CHR ''*'' = 1 \<and>
      HasPrefix (Value ident) ''*.'' \<longrightarrow>
      Value ident = ''*.'' @ TrimPrefix (Value ident) ''*.'' \<and>
      CHR ''*'' \<notin> set (TrimPrefix (Value ident) ''*.'')"
  proof (intro impI, elim conjE)
    assume c: "Count (Value ident) CHR ''*'' = 1" and h: "HasPrefix (Value ident) ''*.''"
    from wildcard_base[OF h] have v: "Value ident = ''*.'' @ TrimPrefix (Value ident) ''*.''" .
    from c have "Count (''*.'' @ TrimPrefix (Value ident) ''*.'') CHR ''*'' = 1"
      using v by simp
    then have "filter (\<lambda>x. x = CHR ''*'') (TrimPrefix (Value ident) ''*.'') = []"
      by (simp add: Count_def)
    then have "CHR ''*'' \<notin> set (TrimPrefix (Value ident) ''*.'')"
      by (auto simp: filter_empty_conv)
    with v show "Value ident = ''*.'' @ TrimPrefix (Value ident) ''*.'' \<and>
      CHR ''*'' \<notin> set (TrimPrefix (Value ident) ''*.'')" by blast
  qed
  have 5: "Type ident = IdentifierDNS \<and> Count (Value ident) CHR ''*'' = 1 \<and>
      Value ident = ''*.'' @ baseDomain \<longrightarrow>
      (iana_ExtractSuffix env baseDomain = None \<longrightarrow>
         WillingToIssueWildcard env pa ident = Some errNonPublic) \<and>
      (iana_ExtractSuffix env baseDomain = Some baseDomain \<longrightarrow>
         WillingToIssueWildcard env pa ident = Some errICANNTLDWildcard) \<and>
      (\<forall>tld. iana_ExtractSuffix env baseDomain = Some tld \<and> tld \<noteq> baseDomain \<longrightarrow>
         (\<forall>err. checkWildcardHostList pa baseDomain = Some err \<longrightarrow>
            WillingToIssueWildcard env pa ident = Some err) \<and>
         (checkWildcardHostList pa baseDomain = None \<longrightarrow>
            WillingToIssueWildcard env pa ident =
              WillingToIssue env pa \<lparr> Type = IdentifierDNS, Value = ''x.'' @ baseDomain \<rparr>))"
  proof (intro impI, elim conjE)
    assume t: "Type ident = IdentifierDNS" and c: "Count (Value ident) CHR ''*'' = 1"
      and v: "Value ident = ''*.'' @ baseDomain"
    have h: "HasPrefix (Value ident) ''*.''" and b: "TrimPrefix (Value ident) ''*.'' = baseDomain"
      by (simp_all add: v HasPrefix_def TrimPrefix_def)
    have w: "WillingToIssueWildcard env pa ident =
      (case iana_ExtractSuffix env baseDomain of
         None \<Rightarrow> Some errNonPublic
       | Some icannTLD \<Rightarrow>
           if baseDomain = icannTLD then Some errICANNTLDWildcard
           else (case checkWildcardHostList pa baseDomain of
                   Some err \<Rightarrow> Some err
                 | None \<Rightarrow> WillingToIssue env pa
                             \<lparr> Type = IdentifierDNS, Value = ''x.'' @ baseDomain \<rparr>))"
      unfolding WillingToIssueWildcard_def Let_def b using t c h by simp
    show "(iana_ExtractSuffix env baseDomain = None \<longrightarrow>
         WillingToIssueWildcard env pa ident = Some errNonPublic) \<and>
      (iana_ExtractSuffix env baseDomain = Some baseDomain \<longrightarrow>
         WillingToIssueWildcard env pa ident = Some errICANNTLDWildcard) \<and>
      (\<forall>tld. iana_ExtractSuffix env baseDomain = Some tld \<and> tld \<noteq> baseDomain \<longrightarrow>
         (\<forall>err. checkWildcardHostList pa baseDomain = Some err \<longrightarrow>
            WillingToIssueWildcard env pa ident = Some err) \<and>
         (checkWildcardHostList pa baseDomain = None \<longrightarrow>
            WillingToIssueWildcard env pa ident =
              WillingToIssue env pa \<lparr> Type = IdentifierDNS, Value = ''x.'' @ baseDomain \<rparr>))"
      unfolding w by auto
  qed
  have 6: "Type ident = IdentifierDNS \<and> Count (Value ident) CHR ''*'' = 0 \<longrightarrow>
      WillingToIssueWildcard env pa ident = WillingToIssue env pa ident"
    by (simp add: WillingToIssueWildcard_def)
  show ?thesis
    by (intro conjI) (fact 1 2 3 4 5 6)+
qed

lemma wildcard_example_facts:
  "Type \<lparr> Type = ''ip'', Value = ''foo.org'' \<rparr> \<noteq> IdentifierDNS"
  "Type (dnsIdentifier ''*.*.org'') = IdentifierDNS \<and>
     1 < Count (Value (dnsIdentifier ''*.*.org'')) CHR ''*''"
  "Type (dnsIdentifier ''a*.org'') = IdentifierDNS \<and>
     Count (Value (dnsIdentifier ''a*.org'')) CHR ''*'' = 1 \<and>
     \<not> HasPrefix (Value (dnsIdentifier ''a*.org'')) ''*.''"
  "Type (dnsIdentifier ''*.zzz'') = IdentifierDNS \<and>
     Count (Value (dnsIdentifier ''*.zzz'')) CHR ''*'' = 1 \<and>
     Value (dnsIdentifier ''*.zzz'') = ''*.'' @ ''zzz''"
  "iana_ExtractSuffix (exampleEnv examplePolicy) ''zzz'' = None"
  "Type (dnsIdentifier ''*.com'') = IdentifierDNS \<and>
     Count (Value (dnsIdentifier ''*.com'')) CHR ''*'' = 1 \<and>
     Value (dnsIdentifier ''*.com'') = ''*.'' @ ''com''"
  "iana_ExtractSuffix (exampleEnv examplePolicy) ''com'' = Some ''com''"
  "Type (dnsIdentifier ''*.example.org'') = IdentifierDNS \<and>
     Count (Value (dnsIdentifier ''*.example.org'')) CHR ''*'' = 1 \<and>
     Value (dnsIdentifier ''*.example.org'') = ''*.'' @ ''example.org''"
  "iana_ExtractSuffix (exampleEnv examplePolicy) ''example.org'' = Some ''org'' \<and>
     ''org'' \<noteq> ''example.org''"
  "checkWildcardHostList exampleAuthority ''example.org'' = Some errBlacklisted"
  "Type (dnsIdentifier ''*.foo.org'') = IdentifierDNS \<and>
     Count (Value (dnsIdentifier ''*.foo.org'')) CHR ''*'' = 1 \<and>
     Value (dnsIdentifier ''*.foo.org'') = ''*.'' @ ''foo.org''"
  "iana_ExtractSuffix (exampleEnv examplePolicy) ''foo.org'' = Some ''org'' \<and>
     ''org'' \<noteq> ''foo.org''"
  "checkWildcardHostList exampleAuthority ''foo.org'' = None"
  "WillingToIssue (exampleEnv examplePolicy) exampleAuthority
     \<lparr> Type = IdentifierDNS, Value = ''x.'' @ ''foo.org'' \<rparr> = None"
  "Type (dnsIdentifier ''foo.org'') = IdentifierDNS \<and>
     Count (Value (dnsIdentifier ''foo.org'')) CHR ''*'' = 0"
  "WillingToIssue (exampleEnv examplePolicy) exampleAuthority (dnsIdentifier ''foo.org'') = None"
  by code_simp+

theorem WillingToIssueWildcard_cases_witness:
  "WillingToIssueWildcard (exampleEnv examplePolicy) exampleAuthority
     \<lparr> Type = ''ip'', Value = ''foo.org'' \<rparr> = Some errInvalidIdentifier
 \<and> WillingToIssueWildcard (exampleEnv examplePolicy) exampleAuthority
     (dnsIdentifier ''*.*.org'') = Some errTooManyWildcards
 \<and> WillingToIssueWildcard (exampleEnv examplePolicy) exampleAuthority
     (dnsIdentifier ''a*.org'') = Some errMalformedWildcard
 \<and> WillingToIssueWildcard (exampleEnv examplePolicy) exampleAuthority
     (dnsIdentifier ''*.zzz'') = Some errNonPublic
 \<and> WillingToIssueWildcard (exampleEnv examplePolicy) exampleAuthority
     (dnsIdentifier ''*.com'') = Some errICANNTLDWildcard
 \<and> WillingToIssueWildcard (exampleEnv examplePolicy) exampleAuthority
     (dnsIdentifier ''*.example.org'') = Some errBlacklisted
 \<and> WillingToIssueWildcard (exampleEnv examplePolicy) exampleAuthority
     (dnsIdentifier ''*.foo.org'') = None
 \<and> WillingToIssueWildcard (exampleEnv examplePolicy) exampleAuthority
     (dnsIdentifier ''foo.org'') = None"
proof -
  note F = wildcard_example_facts
  note T = WillingToIssueWildcard_cases[of _ "exampleEnv examplePolicy" exampleAuthority]
  have c1: "WillingToIssueWildcard (exampleEnv examplePolicy) exampleAuthority
     \<lparr> Type = ''ip'', Value = ''foo.org'' \<rparr> = Some errInvalidIdentifier"
    using T[of "\<lparr> Type = ''ip'', Value = ''foo.org'' \<rparr>"] F(1) by blast
  have c2: "WillingToIssueWildcard (exampleEnv examplePolicy) exampleAuthority
     (dnsIdentifier ''*.*.org'') = Some errTooManyWildcards"
    using T[of "dnsIdentifier ''*.*.org''"] F(2) by blast
  have c3: "WillingToIssueWildcard (exampleEnv examplePolicy) exampleAuthority
     (dnsIdentifier ''a*.org'') = Some errMalformedWildcard"
    using T[of "dnsIdentifier ''a*.org''"] F(3) by blast
  have c4: "WillingToIssueWildcard (exampleEnv examplePolicy) exampleAuthority
     (dnsIdentifier ''*.zzz'') = Some errNonPublic"
    using T[of "dnsIdentifier ''*.zzz''" "''zzz''"] F(4,5) by blast
  have c5: "WillingToIssueWildcard (exampleEnv examplePolicy) exampleAuthority
     (dnsIdentifier ''*.com'') = Some errICANNTLDWildcard"
    using T[of "dnsIdentifier ''*.com''" "''com''"] F(6,7) by blast
  have c6: "WillingToIssueWildcard (exampleEnv examplePolicy) exampleAuthority
     (dnsIdentifier ''*.example.org'') = Some errBlacklisted"
    using T[of "dnsIdentifier ''*.example.org''" "''example.org''"] F(8,9,10) by blast
  have c7: "WillingToIssueWildcard (exampleEnv examplePolicy) exampleAuthority
     (dnsIdentifier ''*.foo.org'') = None"
    using T[of "dnsIdentifier ''*.foo.org''" "''foo.org''"] F(11,12,13,14) by metis
  have c8: "WillingToIssueWildcard (exampleEnv examplePolicy) exampleAuthority
     (dnsIdentifier ''foo.org'') = None"
    using T[of "dnsIdentifier ''foo.org''"] F(15,16) by metis
  show ?thesis
    by (intro conjI) (fact c1 c2 c3 c4 c5 c6 c7 c8)+
qed

section \<open>The order of the checks of the validator\<close>

lemma labelLoop_append:
  "labelLoop env (pre @ rest) =
     (case labelLoop env pre of Some e \<Rightarrow> Some e | None \<Rightarrow> labelLoop env rest)"
  unfolding labelLoop_firstFailure by (simp add: firstFailure_append)

lemma labelLoop_trailing_dash:
  assumes "l \<noteq> []" "length l \<le> 63" "last l = CHR ''-''"
  shows "labelLoop env (l # post) = Some errInvalidDNSCharacter"
proof -
  from assms have "l ! (length l - 1) = CHR ''-''" "\<not> length l < 1"
    by (simp_all add: last_conv_nth)
  with assms(2) show ?thesis by (simp add: maxLabelLength_def)
qed

lemma too_long:
  assumes "Type ident = IdentifierDNS" "\<not> HasPrefix (Value ident) ''*.''"
    "list_all (\<lambda>c. c \<in> set dnsAlphabet) (Value ident)" "length (Value ident) > 230"
  shows "WillingToIssue env pa ident = Some errNameTooLong"
proof -
  from assms(4) have "Value ident \<noteq> []" by auto
  with assms show ?thesis
    by (simp add: WillingToIssue_def maxDNSIdentifierLength_def list_all_dnsAlphabet)
qed

lemma underscore:
  assumes "Type ident = IdentifierDNS" "\<not> HasPrefix (Value ident) ''*.''"
    "CHR ''_'' \<in> set (Value ident)"
  shows "WillingToIssue env pa ident = Some errInvalidDNSCharacter"
proof -
  from assms(3) have ne: "Value ident \<noteq> []" by auto
  have "\<not> isDNSCharacter CHR ''_''" by (simp add: isDNSCharacter_def)
  with assms(3) have "\<not> list_all isDNSCharacter (Value ident)"
    by (auto simp: list_all_iff)
  with assms ne show ?thesis by (simp add: WillingToIssue_def)
qed

lemma ip_literal:
  assumes "Type ident = IdentifierDNS" "Value ident \<noteq> []" "\<not> HasPrefix (Value ident) ''*.''"
    "list_all (\<lambda>c. c \<in> set dnsAlphabet) (Value ident)" "length (Value ident) \<le> 230"
    "net_ParseIP env (Value ident)"
  shows "WillingToIssue env pa ident = Some errIPAddress"
  using assms
  by (simp add: WillingToIssue_def maxDNSIdentifierLength_def list_all_dnsAlphabet)

lemma trailing_dot:
  assumes "Type ident = IdentifierDNS" "Value ident \<noteq> []" "\<not> HasPrefix (Value ident) ''*.''"
    "list_all (\<lambda>c. c \<in> set dnsAlphabet) (Value ident)" "length (Value ident) \<le> 230"
    "\<not> net_ParseIP env (Value ident)" "last (Value ident) = CHR ''.''"
  shows "WillingToIssue env pa ident = Some errNameEndsInDot"
  using assms
  by (simp add: WillingToIssue_def maxDNSIdentifierLength_def HasSuffix_dot
      list_all_dnsAlphabet)

lemma trailing_dash:
  assumes "Type ident = IdentifierDNS" "Value ident \<noteq> []" "\<not> HasPrefix (Value ident) ''*.''"
    "list_all (\<lambda>c. c \<in> set dnsAlphabet) (Value ident)" "length (Value ident) \<le> 230"
    "\<not> net_ParseIP env (Value ident)" "last (Value ident) \<noteq> CHR ''.''"
    "length (Split (Value ident) CHR ''.'') \<le> 10" "2 \<le> length (Split (Value ident) CHR ''.'')"
    "Split (Value ident) CHR ''.'' = pre @ l # post"
    "firstFailure
       (concat (map (\<lambda>label. labelSyntaxChecks label @ labelIdnChecks env label) pre)) = None"
    "l \<noteq> []" "length l \<le> 63" "last l = CHR ''-''"
  shows "WillingToIssue env pa ident = Some errInvalidDNSCharacter"
proof -
  from assms(11) have pre: "labelLoop env pre = None"
    by (simp only: labelLoop_firstFailure)
  have "labelLoop env (l # post) = Some errInvalidDNSCharacter"
    by (rule labelLoop_trailing_dash[OF assms(12,13,14)])
  then have "labelLoop env (Split (Value ident) CHR ''.'') = Some errInvalidDNSCharacter"
    unfolding assms(10) labelLoop_append pre by (simp only: option.case)
  moreover have "\<not> 10 < length (Split (Value ident) CHR ''.'')"
    "\<not> length (Split (Value ident) CHR ''.'') < 2"
    using assms(8,9) by simp_all
  ultimately show ?thesis
    using assms(1-7)
    by (simp add: WillingToIssue_def maxDNSIdentifierLength_def HasSuffix_dot maxLabels_def
        list_all_dnsAlphabet del: labelLoop.simps)
qed

text \<open>
  Taken step by step, with step 9 (length, syntax, trailing hyphen) on every label
  before step 10 (punycode, reserved form) on any, the checks do not give what
  \<open>WillingToIssue\<close> returns. In \<open>ab--cd.foo-.com\<close> the first label has the reserved
  form and the second ends in a hyphen: the loop of \<open>WillingToIssue\<close> runs all checks
  of the first label before it looks at the second and returns the reserved-form error,
  where step 9 before step 10 gives the invalid-character error.
\<close>

theorem WillingToIssue_stepwise_counterexample:
  "WillingToIssue (exampleEnv examplePolicy) exampleAuthority
     (dnsIdentifier ''ab--cd.foo-.com'')
     \<noteq> firstFailure (stepwiseChecks (exampleEnv examplePolicy) exampleAuthority
           (dnsIdentifier ''ab--cd.foo-.com''))
 \<and> WillingToIssue (exampleEnv examplePolicy) exampleAuthority
     (dnsIdentifier ''ab--cd.foo-.com'') = Some errInvalidRLDH
 \<and> firstFailure (stepwiseChecks (exampleEnv examplePolicy) exampleAuthority
       (dnsIdentifier ''ab--cd.foo-.com'')) = Some errInvalidDNSCharacter"
  by code_simp

text \<open>
  C6. \<open>WillingToIssue\<close> returns the error of the first failing check in this fixed
  order: identifier type, emptiness, wildcard prefix, character set, 230-octet bound,
  IP literal, trailing dot, at most 10 and at least 2 labels; then label by label, for
  each label in turn, its length (1 to 63), its syntax, no trailing hyphen, and the
  punycode or reserved-form check; then the public suffix and at last the blacklist.
  It returns no error when no check fails. Each check gives its own error: when the
  checks before it pass, a name of more than 230 octets gets the name-too-long error,
  a name containing an underscore the invalid-character error, a name that parses as
  an IP literal (such as \<open>192.0.2.1\<close>) the IP-address error, a name ending in a dot
  the ends-in-a-period error, and a name with a label ending in a hyphen the
  invalid-character error, provided that no check of a label before that one fails.
\<close>

theorem WillingToIssue_ordered_checks:
  "WillingToIssue env pa ident = firstFailure (labelwiseChecks env pa ident)
 \<and> (Type ident = IdentifierDNS \<and> \<not> HasPrefix (Value ident) ''*.'' \<and>
      list_all (\<lambda>c. c \<in> set dnsAlphabet) (Value ident) \<and> 230 < length (Value ident) \<longrightarrow>
      WillingToIssue env pa ident = Some errNameTooLong)
 \<and> (Type ident = IdentifierDNS \<and> \<not> HasPrefix (Value ident) ''*.'' \<and>
      CHR ''_'' \<in> set (Value ident) \<longrightarrow>
      WillingToIssue env pa ident = Some errInvalidDNSCharacter)
 \<and> (Type ident = IdentifierDNS \<and> Value ident \<noteq> [] \<and> \<not> HasPrefix (Value ident) ''*.'' \<and>
      list_all (\<lambda>c. c \<in> set dnsAlphabet) (Value ident) \<and> length (Value ident) \<le> 230 \<and>
      net_ParseIP env (Value ident) \<longrightarrow>
      WillingToIssue env pa ident = Some errIPAddress)
 \<and> (net_ParseIP env ''192.0.2.1'' \<longrightarrow>
      WillingToIssue env pa (dnsIdentifier ''192.0.2.1'') = Some errIPAddress)
 \<and> (Type ident = IdentifierDNS \<and> Value ident \<noteq> [] \<and> \<not> HasPrefix (Value ident) ''*.'' \<and>
      list_all (\<lambda>c. c \<in> set dnsAlphabet) (Value ident) \<and> length (Value ident) \<le> 230 \<and>
      \<not> net_ParseIP env (Value ident) \<and> last (Value ident) = CHR ''.'' \<longrightarrow>
      WillingToIssue env pa ident = Some errNameEndsInDot)
 \<and> (Type ident = IdentifierDNS \<and> Value ident \<noteq> [] \<and> \<not> HasPrefix (Value ident) ''*.'' \<and>
      list_all (\<lambda>c. c \<in> set dnsAlphabet) (Value ident) \<and> length (Value ident) \<le> 230 \<and>
      \<not> net_ParseIP env (Value ident) \<and> last (Value ident) \<noteq> CHR ''.'' \<and>
      length (Split (Value ident) CHR ''.'') \<le> 10 \<and>
      2 \<le> length (Split (Value ident) CHR ''.'') \<and>
      Split (Value ident) CHR ''.'' = pre @ l # post \<and>
      firstFailure
        (concat (map (\<lambda>label. labelSyntaxChecks label @ labelIdnChecks env label) pre)) = None \<and>
      l \<noteq> [] \<and> length l \<le> 63 \<and> last l = CHR ''-'' \<longrightarrow>
      WillingToIssue env pa ident = Some errInvalidDNSCharacter)"
proof -
  have ip: "net_ParseIP env ''192.0.2.1'' \<longrightarrow>
      WillingToIssue env pa (dnsIdentifier ''192.0.2.1'') = Some errIPAddress"
  proof
    assume p: "net_ParseIP env ''192.0.2.1''"
    have "list_all (\<lambda>c. c \<in> set dnsAlphabet) ''192.0.2.1''"
      by code_simp
    with p show "WillingToIssue env pa (dnsIdentifier ''192.0.2.1'') = Some errIPAddress"
      by (intro ip_literal) (simp_all add: dnsIdentifier_def HasPrefix_def)
  qed
  show ?thesis
    using WillingToIssue_firstFailure[of env pa ident] too_long[of ident env pa]
      underscore[of ident env pa] ip_literal[of ident env pa] ip
      trailing_dot[of ident env pa] trailing_dash[of ident env pre l post pa]
    by blast
qed

lemma long_name_facts:
  "Type (dnsIdentifier (replicate 231 CHR ''a'')) = IdentifierDNS \<and>
   \<not> HasPrefix (Value (dnsIdentifier (replicate 231 CHR ''a''))) ''*.'' \<and>
   list_all (\<lambda>c. c \<in> set dnsAlphabet) (Value (dnsIdentifier (replicate 231 CHR ''a''))) \<and>
   230 < length (Value (dnsIdentifier (replicate 231 CHR ''a'')))"
  by code_simp

lemma underscore_facts:
  "Type (dnsIdentifier ''foo_bar.com'') = IdentifierDNS \<and>
   \<not> HasPrefix (Value (dnsIdentifier ''foo_bar.com'')) ''*.'' \<and>
   CHR ''_'' \<in> set (Value (dnsIdentifier ''foo_bar.com''))"
  by code_simp

lemma ip_facts: "net_ParseIP (exampleEnv examplePolicy) ''192.0.2.1''"
  by code_simp

lemma dot_facts:
  "Type (dnsIdentifier ''example.com.'') = IdentifierDNS \<and>
   Value (dnsIdentifier ''example.com.'') \<noteq> [] \<and>
   \<not> HasPrefix (Value (dnsIdentifier ''example.com.'')) ''*.'' \<and>
   list_all (\<lambda>c. c \<in> set dnsAlphabet) (Value (dnsIdentifier ''example.com.'')) \<and>
   length (Value (dnsIdentifier ''example.com.'')) \<le> 230 \<and>
   \<not> net_ParseIP (exampleEnv examplePolicy) (Value (dnsIdentifier ''example.com.'')) \<and>
   last (Value (dnsIdentifier ''example.com.'')) = CHR ''.''"
  by code_simp

lemma dash_facts:
  "Type (dnsIdentifier ''www.foo-.com'') = IdentifierDNS \<and>
   Value (dnsIdentifier ''www.foo-.com'') \<noteq> [] \<and>
   \<not> HasPrefix (Value (dnsIdentifier ''www.foo-.com'')) ''*.'' \<and>
   list_all (\<lambda>c. c \<in> set dnsAlphabet) (Value (dnsIdentifier ''www.foo-.com'')) \<and>
   length (Value (dnsIdentifier ''www.foo-.com'')) \<le> 230 \<and>
   \<not> net_ParseIP (exampleEnv examplePolicy) (Value (dnsIdentifier ''www.foo-.com'')) \<and>
   last (Value (dnsIdentifier ''www.foo-.com'')) \<noteq> CHR ''.'' \<and>
   length (Split (Value (dnsIdentifier ''www.foo-.com'')) CHR ''.'') \<le> 10 \<and>
   2 \<le> length (Split (Value (dnsIdentifier ''www.foo-.com'')) CHR ''.'') \<and>
   Split (Value (dnsIdentifier ''www.foo-.com'')) CHR ''.'' = [''www''] @ ''foo-'' # [''com''] \<and>
   firstFailure
     (concat (map (\<lambda>label. labelSyntaxChecks label @
                             labelIdnChecks (exampleEnv examplePolicy) label) [''www''])) = None \<and>
   ''foo-'' \<noteq> [] \<and> length ''foo-'' \<le> 63 \<and> last ''foo-'' = CHR ''-''"
  by code_simp

lemma reserved_first_facts:
  "firstFailure (labelwiseChecks (exampleEnv examplePolicy) exampleAuthority
     (dnsIdentifier ''ab--cd.foo-.com'')) = Some errInvalidRLDH"
  by code_simp

theorem WillingToIssue_ordered_checks_witness:
  "WillingToIssue (exampleEnv examplePolicy) exampleAuthority
     (dnsIdentifier (replicate 231 CHR ''a'')) = Some errNameTooLong
 \<and> WillingToIssue (exampleEnv examplePolicy) exampleAuthority
     (dnsIdentifier ''foo_bar.com'') = Some errInvalidDNSCharacter
 \<and> WillingToIssue (exampleEnv examplePolicy) exampleAuthority
     (dnsIdentifier ''192.0.2.1'') = Some errIPAddress
 \<and> WillingToIssue (exampleEnv examplePolicy) exampleAuthority
     (dnsIdentifier ''example.com.'') = Some errNameEndsInDot
 \<and> WillingToIssue (exampleEnv examplePolicy) exampleAuthority
     (dnsIdentifier ''www.foo-.com'') = Some errInvalidDNSCharacter
 \<and> WillingToIssue (exampleEnv examplePolicy) exampleAuthority
     (dnsIdentifier ''ab--cd.foo-.com'') = Some errInvalidRLDH"
proof -
  have c1: "WillingToIssue (exampleEnv examplePolicy) exampleAuthority
     (dnsIdentifier (replicate 231 CHR ''a'')) = Some errNameTooLong"
    using WillingToIssue_ordered_checks[of "exampleEnv examplePolicy" exampleAuthority
        "dnsIdentifier (replicate 231 CHR ''a'')"] long_name_facts
    by blast
  have c2: "WillingToIssue (exampleEnv examplePolicy) exampleAuthority
     (dnsIdentifier ''foo_bar.com'') = Some errInvalidDNSCharacter"
    using WillingToIssue_ordered_checks[of "exampleEnv examplePolicy" exampleAuthority
        "dnsIdentifier ''foo_bar.com''"] underscore_facts
    by blast
  have c3: "WillingToIssue (exampleEnv examplePolicy) exampleAuthority
     (dnsIdentifier ''192.0.2.1'') = Some errIPAddress"
    using WillingToIssue_ordered_checks[of "exampleEnv examplePolicy" exampleAuthority] ip_facts
    by blast
  have c4: "WillingToIssue (exampleEnv examplePolicy) exampleAuthority
     (dnsIdentifier ''example.com.'') = Some errNameEndsInDot"
    using WillingToIssue_ordered_checks[of "exampleEnv examplePolicy" exampleAuthority
        "dnsIdentifier ''example.com.''"] dot_facts
    by blast
  have c5: "WillingToIssue (exampleEnv examplePolicy) exampleAuthority
     (dnsIdentifier ''www.foo-.com'') = Some errInvalidDNSCharacter"
    using WillingToIssue_ordered_checks[of "exampleEnv examplePolicy" exampleAuthority
        "dnsIdentifier ''www.foo-.com''" "[''www'']" "''foo-''" "[''com'']"] dash_facts
    by blast
  have c6: "WillingToIssue (exampleEnv examplePolicy) exampleAuthority
     (dnsIdentifier ''ab--cd.foo-.com'') = Some errInvalidRLDH"
    using WillingToIssue_ordered_checks[of "exampleEnv examplePolicy" exampleAuthority
        "dnsIdentifier ''ab--cd.foo-.com''"] reserved_first_facts
    by simp
  show ?thesis
    by (intro conjI) (fact c1 c2 c3 c4 c5 c6)+
qed

section \<open>Error classes\<close>

text \<open>
  Every error of the two validators other than the not-yet-loaded error is a
  \<open>berrors\<close> error, of class Malformed or RejectedIdentifier.
\<close>

lemmas policy_error_defs =
  errInvalidIdentifier_def errNonPublic_def errICANNTLD_def errBlacklisted_def
  errInvalidDNSCharacter_def errNameTooLong_def errIPAddress_def errTooManyLabels_def
  errEmptyName_def errNameEndsInDot_def errTooFewLabels_def errLabelTooShort_def
  errLabelTooLong_def errMalformedIDN_def errInvalidRLDH_def errTooManyWildcards_def
  errMalformedWildcard_def errICANNTLDWildcard_def errWildcardNotSupported_def
  MalformedError_def RejectedIdentifierError_def

lemma labelLoop_class: "labelLoop env labels = Some e \<Longrightarrow> errorClass e \<noteq> None"
proof (induction labels)
  case Nil
  then show ?case by simp
next
  case (Cons label labels)
  from Cons.prems consider
      (here) t msg where "e = BoulderError t msg"
    | (later) "labelLoop env labels = Some e"
    unfolding labelLoop.simps policy_error_defs
    by (auto split: if_splits option.splits)
  then show ?case
    using Cons.IH by cases auto
qed

lemma checkHostLists_class:
  "checkHostLists pa d = Some e \<Longrightarrow> e = errNotLoaded \<or> errorClass e \<noteq> None"
  by (auto simp: checkHostLists_def errBlacklisted_def RejectedIdentifierError_def
      split: if_splits)

lemma WillingToIssue_class:
  assumes "WillingToIssue env pa ident = Some e"
  shows "e = errNotLoaded \<or> errorClass e \<noteq> None"
proof -
  from assms consider
      (name) t msg where "e = BoulderError t msg"
    | (label) labels where "labelLoop env labels = Some e"
    | (host) "checkHostLists pa (Value ident) = Some e"
    unfolding WillingToIssue_def Let_def policy_error_defs
    by (auto split: if_splits option.splits)
  then show ?thesis
  proof cases
    case name
    then show ?thesis by simp
  next
    case label
    then show ?thesis using labelLoop_class by blast
  next
    case host
    then show ?thesis by (rule checkHostLists_class)
  qed
qed

lemma checkWildcardHostList_class:
  "checkWildcardHostList pa d = Some e \<Longrightarrow> e = errNotLoaded \<or> errorClass e \<noteq> None"
  by (auto simp: checkWildcardHostList_def errBlacklisted_def RejectedIdentifierError_def
      split: if_splits)

lemma WillingToIssueWildcard_class:
  assumes "WillingToIssueWildcard env pa ident = Some e"
  shows "e = errNotLoaded \<or> errorClass e \<noteq> None"
proof (cases "Type ident = IdentifierDNS \<and> Count (Value ident) CHR ''*'' = 0")
  case True
  with assms have "WillingToIssue env pa ident = Some e"
    by (simp add: WillingToIssueWildcard_def)
  then show ?thesis by (rule WillingToIssue_class)
next
  case False
  show ?thesis
  proof (cases "Type ident = IdentifierDNS \<and> Count (Value ident) CHR ''*'' = 1 \<and>
      HasPrefix (Value ident) ''*.''")
    case True
    define base where "base = TrimPrefix (Value ident) ''*.''"
    from True assms have e: "(case iana_ExtractSuffix env base of
         None \<Rightarrow> Some errNonPublic
       | Some icannTLD \<Rightarrow>
           if base = icannTLD then Some errICANNTLDWildcard
           else (case checkWildcardHostList pa base of
                   Some err \<Rightarrow> Some err
                 | None \<Rightarrow> WillingToIssue env pa
                             \<lparr> Type = IdentifierDNS, Value = ''x.'' @ base \<rparr>)) = Some e"
      unfolding WillingToIssueWildcard_def Let_def base_def by simp
    show ?thesis
    proof (cases "iana_ExtractSuffix env base")
      case None
      with e show ?thesis by (auto simp: errNonPublic_def MalformedError_def)
    next
      case (Some tld)
      show ?thesis
      proof (cases "base = tld")
        case True
        with e Some show ?thesis by (auto simp: errICANNTLDWildcard_def MalformedError_def)
      next
        case False
        with e Some show ?thesis
          using checkWildcardHostList_class[of pa base e]
            WillingToIssue_class[of env pa "\<lparr> Type = IdentifierDNS, Value = ''x.'' @ base \<rparr>" e]
          by (cases "checkWildcardHostList pa base") auto
      qed
    qed
  next
    case nw: False
    with False assms have "e \<in> {errInvalidIdentifier, errTooManyWildcards, errMalformedWildcard}"
      unfolding WillingToIssueWildcard_def Let_def
      by (auto split: if_splits)
    then show ?thesis
      by (auto simp: policy_error_defs)
  qed
qed

text \<open>
  C7. The doc comment of \<open>WillingToIssue\<close> says that an error it returns is of
  type MalformedRequestError or RejectedIdentifierError. With no hostname policy loaded
  this is not so: for the valid name \<open>foo.example.com\<close> \<open>WillingToIssue\<close>
  returns the not-yet-loaded error, and so does \<open>WillingToIssueWildcard\<close> for
  \<open>*.foo.org\<close>; that error is made by \<open>fmt.Errorf\<close> and has neither class,
  whereas the blacklisted error has class RejectedIdentifier.
\<close>

theorem not_loaded_error_unclassified:
  "WillingToIssue (exampleEnv examplePolicy) (New (exampleEnv examplePolicy) None)
     (dnsIdentifier ''foo.example.com'') = Some errNotLoaded
 \<and> WillingToIssueWildcard (exampleEnv examplePolicy) (New (exampleEnv examplePolicy) None)
     (dnsIdentifier ''*.foo.org'') = Some errNotLoaded
 \<and> errorClass errNotLoaded = None
 \<and> errorClass errBlacklisted = Some RejectedIdentifier"
  by code_simp

section \<open>Challenges for a wildcard identifier\<close>

text \<open>
  C8. A challenge type is enabled for an account when it is globally enabled or the
  account is in the allow-list of the type. For an identifier whose value starts with
  \<open>*.\<close>, \<open>ChallengesFor\<close> returns exactly one challenge, of type DNS-01 (with
  the one combination of it), when DNS-01 is enabled for the account, and otherwise the
  error with no challenges and no combinations, leaving the authority as it was.
  Whenever \<open>ChallengesFor\<close> returns an error, it is in this case; and it always
  returns. The generator is taken to keep the contract of \<open>Perm\<close>.
\<close>

theorem ChallengesFor_wildcard:
  assumes contract: "permContract env"
  shows "(ChallengeTypeEnabled pa t regID \<longleftrightarrow>
            lookup (enabledChallenges pa) t \<or> lookup (whitelistFor pa t) regID)
       \<and> (HasPrefix (Value identifier) ''*.'' \<and>
           ChallengeTypeEnabled pa ChallengeTypeDNS01 regID \<longrightarrow>
            (\<exists>c pa'. ChallengesFor env pa identifier regID revalidation draws =
                        (Some ([c], [[0]], None), pa') \<and>
                     ChallengeType c = ChallengeTypeDNS01))
       \<and> (HasPrefix (Value identifier) ''*.'' \<and>
           \<not> ChallengeTypeEnabled pa ChallengeTypeDNS01 regID \<longrightarrow>
            ChallengesFor env pa identifier regID revalidation draws =
              (Some ([], [], Some errWildcardNeedsDNS01), pa))
       \<and> (\<forall>chs combos err pa'.
            ChallengesFor env pa identifier regID revalidation draws =
              (Some (chs, combos, Some err), pa') \<longrightarrow>
            HasPrefix (Value identifier) ''*.'' \<and>
            \<not> ChallengeTypeEnabled pa ChallengeTypeDNS01 regID)
       \<and> fst (ChallengesFor env pa identifier regID revalidation draws) \<noteq> None"
proof -
  have 1: "ChallengeTypeEnabled pa t regID \<longleftrightarrow>
            lookup (enabledChallenges pa) t \<or> lookup (whitelistFor pa t) regID"
    by (rule ChallengeTypeEnabled_iff)
  have 2: "HasPrefix (Value identifier) ''*.'' \<and>
           ChallengeTypeEnabled pa ChallengeTypeDNS01 regID \<longrightarrow>
            (\<exists>c pa'. ChallengesFor env pa identifier regID revalidation draws =
                        (Some ([c], [[0]], None), pa') \<and>
                     ChallengeType c = ChallengeTypeDNS01)"
  proof (intro impI, elim conjE)
    assume w: "HasPrefix (Value identifier) ''*.''"
      and en: "ChallengeTypeEnabled pa ChallengeTypeDNS01 regID"
    from select_wildcard_enabled[OF w en] obtain k token where
      sel: "selectChallenges env pa identifier regID revalidation draws =
              Inr [DNSChallenge01 draws k token]"
      by blast
    let ?r1 = "snd (rand_Perm env (pseudoRNG pa) (length [DNSChallenge01 draws k token]))"
    have p1: "fst (rand_Perm env (pseudoRNG pa) (length [DNSChallenge01 draws k token])) = [0]"
      using contract unfolding permContract_def by (intro perm_one) simp
    have p2: "fst (rand_Perm env ?r1 (length [DNSChallenge01 draws k token])) = [0]"
      using contract unfolding permContract_def by (intro perm_one) simp
    have "ChallengesFor env pa identifier regID revalidation draws =
        (Some ([DNSChallenge01 draws k token], [[0]], None),
         pa\<lparr> pseudoRNG :=
               snd (rand_Perm env ?r1 (length [DNSChallenge01 draws k token])) \<rparr>)"
      unfolding ChallengesFor_shuffled[OF contract sel] p1 p2 by simp
    moreover have "ChallengeType (DNSChallenge01 draws k token) = ChallengeTypeDNS01"
      by (simp add: DNSChallenge01_def newChallenge_def)
    ultimately show "\<exists>c pa'. ChallengesFor env pa identifier regID revalidation draws =
                        (Some ([c], [[0]], None), pa') \<and>
                     ChallengeType c = ChallengeTypeDNS01"
      by blast
  qed
  have 3: "HasPrefix (Value identifier) ''*.'' \<and>
           \<not> ChallengeTypeEnabled pa ChallengeTypeDNS01 regID \<longrightarrow>
            ChallengesFor env pa identifier regID revalidation draws =
              (Some ([], [], Some errWildcardNeedsDNS01), pa)"
    by (auto simp: ChallengesFor_def select_wildcard_disabled)
  have cases: "(\<exists>err. selectChallenges env pa identifier regID revalidation draws = Inl err) \<or>
      (\<exists>chs. selectChallenges env pa identifier regID revalidation draws = Inr chs)"
    by (cases "selectChallenges env pa identifier regID revalidation draws") auto
  have 4: "\<forall>chs combos err pa'.
            ChallengesFor env pa identifier regID revalidation draws =
              (Some (chs, combos, Some err), pa') \<longrightarrow>
            HasPrefix (Value identifier) ''*.'' \<and>
            \<not> ChallengeTypeEnabled pa ChallengeTypeDNS01 regID"
  proof (intro allI impI)
    fix chs combos err pa'
    assume r: "ChallengesFor env pa identifier regID revalidation draws =
              (Some (chs, combos, Some err), pa')"
    from cases show "HasPrefix (Value identifier) ''*.'' \<and>
            \<not> ChallengeTypeEnabled pa ChallengeTypeDNS01 regID"
    proof
      assume "\<exists>e. selectChallenges env pa identifier regID revalidation draws = Inl e"
      then show ?thesis using select_error by blast
    next
      assume "\<exists>cs. selectChallenges env pa identifier regID revalidation draws = Inr cs"
      then obtain cs where "selectChallenges env pa identifier regID revalidation draws = Inr cs"
        by blast
      from ChallengesFor_shuffled[OF contract this] r show ?thesis by simp
    qed
  qed
  have 5: "fst (ChallengesFor env pa identifier regID revalidation draws) \<noteq> None"
    using cases
  proof
    assume "\<exists>e. selectChallenges env pa identifier regID revalidation draws = Inl e"
    then show ?thesis by (auto simp: ChallengesFor_def)
  next
    assume "\<exists>cs. selectChallenges env pa identifier regID revalidation draws = Inr cs"
    then obtain cs where "selectChallenges env pa identifier regID revalidation draws = Inr cs"
      by blast
    from ChallengesFor_shuffled[OF contract this] show ?thesis by simp
  qed
  show ?thesis
    by (intro conjI) (fact 1 2 3 4 5)+
qed

lemma allow_list_facts:
  "HasPrefix (Value (dnsIdentifier ''*.foo.org'')) ''*.'' \<and>
   ChallengeTypeEnabled allowListAuthority ChallengeTypeDNS01 7"
  "HasPrefix (Value (dnsIdentifier ''*.foo.org'')) ''*.'' \<and>
   \<not> ChallengeTypeEnabled allowListAuthority ChallengeTypeDNS01 8"
  "\<not> lookup (enabledChallenges allowListAuthority) ChallengeTypeDNS01"
  "lookup (whitelistFor allowListAuthority ChallengeTypeDNS01) 7"
  by code_simp+

theorem ChallengesFor_wildcard_witness:
  "permContract (exampleEnv examplePolicy)
 \<and> (\<exists>c pa'. ChallengesFor (exampleEnv examplePolicy) allowListAuthority
                 (dnsIdentifier ''*.foo.org'') 7 False drawsA = (Some ([c], [[0]], None), pa') \<and>
              ChallengeType c = ChallengeTypeDNS01)
 \<and> ChallengesFor (exampleEnv examplePolicy) allowListAuthority
       (dnsIdentifier ''*.foo.org'') 8 False drawsA
     = (Some ([], [], Some errWildcardNeedsDNS01), allowListAuthority)
 \<and> ChallengeTypeEnabled allowListAuthority ChallengeTypeDNS01 7
 \<and> \<not> ChallengeTypeEnabled allowListAuthority ChallengeTypeDNS01 8"
proof -
  note c = example_contract[of examplePolicy]
  note F = allow_list_facts
  have c1: "\<exists>c pa'. ChallengesFor (exampleEnv examplePolicy) allowListAuthority
                 (dnsIdentifier ''*.foo.org'') 7 False drawsA = (Some ([c], [[0]], None), pa') \<and>
              ChallengeType c = ChallengeTypeDNS01"
    using ChallengesFor_wildcard[OF c, of allowListAuthority ChallengeTypeDNS01 7
        "dnsIdentifier ''*.foo.org''" False drawsA] F(1)
    by blast
  have c2: "ChallengesFor (exampleEnv examplePolicy) allowListAuthority
       (dnsIdentifier ''*.foo.org'') 8 False drawsA
     = (Some ([], [], Some errWildcardNeedsDNS01), allowListAuthority)"
    using ChallengesFor_wildcard[OF c, of allowListAuthority ChallengeTypeDNS01 8
        "dnsIdentifier ''*.foo.org''" False drawsA] F(2)
    by blast
  have c3: "ChallengeTypeEnabled allowListAuthority ChallengeTypeDNS01 7"
    using ChallengesFor_wildcard[OF c, of allowListAuthority ChallengeTypeDNS01 7
        "dnsIdentifier ''*.foo.org''" False drawsA] F(4)
    by blast
  from c c1 c2 c3 F(2) show ?thesis by blast
qed

section \<open>All four challenge types: count and determinism\<close>

lemma select_all_four:
  "allFourEnabled pa regID \<Longrightarrow> \<not> HasPrefix (Value identifier) ''*.'' \<Longrightarrow>
   selectChallenges env pa identifier regID revalidation draws = Inr (fourChallenges env draws)"
  by (simp add: selectChallenges_def allFourEnabled_def fourChallenges_def Let_def
      eval_nat_numeral)

lemma fourChallenges_types:
  "map ChallengeType (fourChallenges env draws) =
     [ChallengeTypeHTTP01, ChallengeTypeTLSSNI01, ChallengeTypeTLSALPN01, ChallengeTypeDNS01]"
  "length (fourChallenges env draws) = 4"
  by (simp_all add: fourChallenges_def Let_def HTTPChallenge01_def TLSSNIChallenge01_def
      TLSALPNChallenge01_def DNSChallenge01_def newChallenge_def)

lemma ChallengesFor_keeps_config:
  "enabledChallenges (snd (ChallengesFor env pa identifier regID revalidation draws))
     = enabledChallenges pa \<and>
   enabledChallengesWhitelist (snd (ChallengesFor env pa identifier regID revalidation draws))
     = enabledChallengesWhitelist pa"
  by (auto simp: ChallengesFor_def Let_def split: sum.splits option.splits prod.splits)

lemma allFourEnabled_kept:
  "allFourEnabled (snd (ChallengesFor env pa identifier regID revalidation draws)) r
     = allFourEnabled pa r"
  using ChallengesFor_keeps_config[of env pa "identifier" regID revalidation draws]
  by (simp add: allFourEnabled_def ChallengeTypeEnabled_def whitelistFor_def)

text \<open>
  The ordering of a call with all four types: the four type names rearranged by the
  first draw of the generator and the singleton combinations of the second. The tokens
  do not enter.
\<close>

lemma four_ordering:
  assumes contract: "permContract env"
    and en: "allFourEnabled pa regID" and nw: "\<not> HasPrefix (Value identifier) ''*.''"
  shows "ordering (fst (ChallengesFor env pa identifier regID revalidation draws)) =
     Some (map (\<lambda>p. [ChallengeTypeHTTP01, ChallengeTypeTLSSNI01, ChallengeTypeTLSALPN01,
                      ChallengeTypeDNS01] ! p)
             (fst (rand_Perm env (pseudoRNG pa) 4)),
           map (\<lambda>p. [p]) (fst (rand_Perm env (snd (rand_Perm env (pseudoRNG pa) 4)) 4)),
           None)"
    and "pseudoRNG (snd (ChallengesFor env pa identifier regID revalidation draws)) =
           snd (rand_Perm env (snd (rand_Perm env (pseudoRNG pa) 4)) 4)"
proof -
  let ?chs = "fourChallenges env draws"
  let ?p1 = "fst (rand_Perm env (pseudoRNG pa) 4)"
  note sel = select_all_four[OF en nw, of env revalidation draws]
  note r = ChallengesFor_shuffled[OF contract sel, unfolded fourChallenges_types(2)]
  from contract have "mset ?p1 = mset [0..<4]"
    unfolding permContract_def by blast
  from perm_facts(2)[OF this] have "\<forall>p\<in>set ?p1. p < length ?chs"
    by (simp add: fourChallenges_types(2))
  then have "map ChallengeType (map (\<lambda>p. ?chs ! p) ?p1) =
      map (\<lambda>p. map ChallengeType ?chs ! p) ?p1"
    by simp
  then show "ordering (fst (ChallengesFor env pa identifier regID revalidation draws)) =
     Some (map (\<lambda>p. [ChallengeTypeHTTP01, ChallengeTypeTLSSNI01, ChallengeTypeTLSALPN01,
                      ChallengeTypeDNS01] ! p) ?p1,
           map (\<lambda>p. [p]) (fst (rand_Perm env (snd (rand_Perm env (pseudoRNG pa) 4)) 4)),
           None)"
    unfolding r fourChallenges_types(1) by (simp add: ordering_def)
  show "pseudoRNG (snd (ChallengesFor env pa identifier regID revalidation draws)) =
           snd (rand_Perm env (snd (rand_Perm env (pseudoRNG pa) 4)) 4)"
    unfolding r by simp
qed

lemma four_step:
  assumes contract: "permContract env"
    and en: "allFourEnabled pa regID" and nw: "\<not> HasPrefix (Value identifier) ''*.''"
    and en2: "allFourEnabled pa2 regID2" and nw2: "\<not> HasPrefix (Value identifier2) ''*.''"
    and rng: "pseudoRNG pa2 = pseudoRNG pa"
  shows "ordering (fst (ChallengesFor env pa2 identifier2 regID2 revalidation2 draws2))
           = ordering (fst (ChallengesFor env pa identifier regID revalidation draws))"
    and "pseudoRNG (snd (ChallengesFor env pa2 identifier2 regID2 revalidation2 draws2))
           = pseudoRNG (snd (ChallengesFor env pa identifier regID revalidation draws))"
  unfolding four_ordering[OF contract en nw] four_ordering[OF contract en2 nw2] rng
  by simp_all

lemma four_sequence:
  assumes contract: "permContract env"
  shows "length calls2 = length calls \<Longrightarrow> pseudoRNG pa2 = pseudoRNG pa \<Longrightarrow>
     \<forall>(i, r, v, d)\<in>set calls. \<not> HasPrefix (Value i) ''*.'' \<and> allFourEnabled pa r \<Longrightarrow>
     \<forall>(i, r, v, d)\<in>set calls2. \<not> HasPrefix (Value i) ''*.'' \<and> allFourEnabled pa2 r \<Longrightarrow>
     map ordering (callSequence env pa2 calls2) = map ordering (callSequence env pa calls)"
proof (induction calls2 calls arbitrary: pa pa2 rule: list_induct2)
  case Nil
  show ?case by simp
next
  case (Cons call2 calls2 call calls)
  obtain i r v d where call: "call = (i, r, v, d)" by (cases call)
  obtain i2 r2 v2 d2 where call2: "call2 = (i2, r2, v2, d2)" by (cases call2)
  from Cons.prems(2) call have h: "\<not> HasPrefix (Value i) ''*.''" "allFourEnabled pa r"
    by simp_all
  from Cons.prems(3) call2 have h2: "\<not> HasPrefix (Value i2) ''*.''" "allFourEnabled pa2 r2"
    by simp_all
  note S = four_step[OF contract h(2) h(1) h2(2) h2(1) Cons.prems(1), of v2 d2 v d]
  have rest: "\<forall>(i', r', v', d')\<in>set calls. \<not> HasPrefix (Value i') ''*.'' \<and>
      allFourEnabled (snd (ChallengesFor env pa i r v d)) r'"
    using Cons.prems(2) by (auto simp: allFourEnabled_kept)
  have rest2: "\<forall>(i', r', v', d')\<in>set calls2. \<not> HasPrefix (Value i') ''*.'' \<and>
      allFourEnabled (snd (ChallengesFor env pa2 i2 r2 v2 d2)) r'"
    using Cons.prems(3) by (auto simp: allFourEnabled_kept)
  from Cons.IH[OF S(2) rest rest2] S(1) show ?case
    by (cases "ChallengesFor env pa2 i2 r2 v2 d2"; cases "ChallengesFor env pa i r v d")
       (simp add: call call2)
qed

text \<open>
  C9. For an identifier that is not a wildcard and an account for which all four
  challenge types are enabled, \<open>ChallengesFor\<close> returns exactly 4 challenges, one
  of each type, and 4 singleton combinations (the generator keeping the contract of
  \<open>Perm\<close>). The ordering it returns, that is the challenge types in their order and
  the combinations in theirs, is determined by the generator state: any authority in
  the same generator state returns the same ordering for any such call, whatever the
  tokens drawn, and ends in the same generator state, so two runs of such calls from
  the same state return the same orderings call by call; and \<open>New\<close> always starts
  the generator from the seed 99.
\<close>

theorem ChallengesFor_all_four_deterministic:
  assumes contract: "permContract env"
    and en: "allFourEnabled pa regID"
    and nw: "\<not> HasPrefix (Value identifier) ''*.''"
  shows "(\<exists>shuffled combinations pa'.
            ChallengesFor env pa identifier regID revalidation draws =
              (Some (shuffled, combinations, None), pa') \<and>
            length shuffled = 4 \<and> length combinations = 4 \<and>
            (\<forall>c\<in>set combinations. \<exists>i. c = [i]) \<and>
            mset (map ChallengeType shuffled) =
              mset [ChallengeTypeHTTP01, ChallengeTypeTLSSNI01, ChallengeTypeTLSALPN01,
                    ChallengeTypeDNS01])
       \<and> (\<forall>pa2 identifier2 regID2 revalidation2 draws2.
            pseudoRNG pa2 = pseudoRNG pa \<and> allFourEnabled pa2 regID2 \<and>
            \<not> HasPrefix (Value identifier2) ''*.'' \<longrightarrow>
            ordering (fst (ChallengesFor env pa2 identifier2 regID2 revalidation2 draws2))
              = ordering (fst (ChallengesFor env pa identifier regID revalidation draws)) \<and>
            pseudoRNG (snd (ChallengesFor env pa2 identifier2 regID2 revalidation2 draws2))
              = pseudoRNG (snd (ChallengesFor env pa identifier regID revalidation draws)))
       \<and> (\<forall>pa2 calls calls2.
            length calls2 = length calls \<and> pseudoRNG pa2 = pseudoRNG pa \<and>
            (\<forall>(i, r, v, d)\<in>set calls. \<not> HasPrefix (Value i) ''*.'' \<and> allFourEnabled pa r) \<and>
            (\<forall>(i, r, v, d)\<in>set calls2. \<not> HasPrefix (Value i) ''*.'' \<and> allFourEnabled pa2 r)
            \<longrightarrow>
            map ordering (callSequence env pa2 calls2)
              = map ordering (callSequence env pa calls))
       \<and> pseudoRNG (New env challengeTypes) = rand_NewSource env 99"
proof -
  note sel = select_all_four[OF en nw, of env revalidation draws]
  from shuffle_permutes[OF contract sel] obtain shuffled combinations pa' where
    r: "ChallengesFor env pa identifier regID revalidation draws =
          (Some (shuffled, combinations, None), pa')"
    and m: "mset shuffled = mset (fourChallenges env draws)"
    and l: "length shuffled = length (fourChallenges env draws)"
       "length combinations = length (fourChallenges env draws)"
    and s: "\<forall>c\<in>set combinations. \<exists>i. c = [i]"
    by blast
  from m have "mset (map ChallengeType shuffled) =
      mset (map ChallengeType (fourChallenges env draws))"
    by (metis mset_map)
  with r l s have 1: "\<exists>shuffled combinations pa'.
            ChallengesFor env pa identifier regID revalidation draws =
              (Some (shuffled, combinations, None), pa') \<and>
            length shuffled = 4 \<and> length combinations = 4 \<and>
            (\<forall>c\<in>set combinations. \<exists>i. c = [i]) \<and>
            mset (map ChallengeType shuffled) =
              mset [ChallengeTypeHTTP01, ChallengeTypeTLSSNI01, ChallengeTypeTLSALPN01,
                    ChallengeTypeDNS01]"
    unfolding fourChallenges_types by blast
  have 2: "\<forall>pa2 identifier2 regID2 revalidation2 draws2.
            pseudoRNG pa2 = pseudoRNG pa \<and> allFourEnabled pa2 regID2 \<and>
            \<not> HasPrefix (Value identifier2) ''*.'' \<longrightarrow>
            ordering (fst (ChallengesFor env pa2 identifier2 regID2 revalidation2 draws2))
              = ordering (fst (ChallengesFor env pa identifier regID revalidation draws)) \<and>
            pseudoRNG (snd (ChallengesFor env pa2 identifier2 regID2 revalidation2 draws2))
              = pseudoRNG (snd (ChallengesFor env pa identifier regID revalidation draws))"
    using four_step[OF contract en nw] by blast
  have 3: "\<forall>pa2 calls calls2.
            length calls2 = length calls \<and> pseudoRNG pa2 = pseudoRNG pa \<and>
            (\<forall>(i, r, v, d)\<in>set calls. \<not> HasPrefix (Value i) ''*.'' \<and> allFourEnabled pa r) \<and>
            (\<forall>(i, r, v, d)\<in>set calls2. \<not> HasPrefix (Value i) ''*.'' \<and> allFourEnabled pa2 r)
            \<longrightarrow>
            map ordering (callSequence env pa2 calls2)
              = map ordering (callSequence env pa calls)"
    using four_sequence[OF contract] by blast
  have 4: "pseudoRNG (New env challengeTypes) = rand_NewSource env 99"
    by (simp add: New_def)
  show ?thesis
    by (intro conjI) (fact 1 2 3 4)+
qed

lemma four_example_facts:
  "allFourEnabled fourAuthority 1"
  "\<not> HasPrefix (Value (dnsIdentifier ''foo.org'')) ''*.''"
  "pseudoRNG loadedFourAuthority = pseudoRNG fourAuthority \<and>
   allFourEnabled loadedFourAuthority 2 \<and>
   \<not> HasPrefix (Value (dnsIdentifier ''bar.com'')) ''*.''"
  "length otherCalls = length exampleCalls \<and>
   pseudoRNG loadedFourAuthority = pseudoRNG fourAuthority \<and>
   (\<forall>(i, r, v, d)\<in>set exampleCalls. \<not> HasPrefix (Value i) ''*.'' \<and>
      allFourEnabled fourAuthority r) \<and>
   (\<forall>(i, r, v, d)\<in>set otherCalls. \<not> HasPrefix (Value i) ''*.'' \<and>
      allFourEnabled loadedFourAuthority r)"
  by code_simp+

text \<open>
  In the example environment the first call on a new authority returns the challenges
  in the order DNS-01, HTTP-01, TLS-SNI-01, TLS-ALPN-01, and a second call on the same
  authority, which starts from the generator state the first one left, returns another
  ordering. Two calls in the same generator state with different token draws return
  the same ordering and different challenges.
\<close>

lemma example_successive_calls:
  "map ChallengeType
     (fst (the (fst (ChallengesFor (exampleEnv examplePolicy) fourAuthority
                       (dnsIdentifier ''foo.org'') 1 False drawsA))))
     = [ChallengeTypeDNS01, ChallengeTypeHTTP01, ChallengeTypeTLSSNI01, ChallengeTypeTLSALPN01]"
  "ordering (fst (ChallengesFor (exampleEnv examplePolicy)
          (snd (ChallengesFor (exampleEnv examplePolicy) fourAuthority
                  (dnsIdentifier ''foo.org'') 1 False drawsA))
          (dnsIdentifier ''foo.org'') 1 False drawsA))
     \<noteq> ordering (fst (ChallengesFor (exampleEnv examplePolicy) fourAuthority
               (dnsIdentifier ''foo.org'') 1 False drawsA))"
  "fst (ChallengesFor (exampleEnv examplePolicy) fourAuthority
          (dnsIdentifier ''foo.org'') 1 False drawsB)
     \<noteq> fst (ChallengesFor (exampleEnv examplePolicy) fourAuthority
               (dnsIdentifier ''foo.org'') 1 False drawsA)"
  by code_simp+

theorem ChallengesFor_all_four_deterministic_witness:
  "permContract (exampleEnv examplePolicy)
 \<and> allFourEnabled fourAuthority 1
 \<and> \<not> HasPrefix (Value (dnsIdentifier ''foo.org'')) ''*.''
 \<and> (\<exists>shuffled combinations pa'.
       ChallengesFor (exampleEnv examplePolicy) fourAuthority (dnsIdentifier ''foo.org'') 1 False
           drawsA
         = (Some (shuffled, combinations, None), pa') \<and>
       length shuffled = 4 \<and> length combinations = 4)
 \<and> ordering (fst (ChallengesFor (exampleEnv examplePolicy) loadedFourAuthority
                     (dnsIdentifier ''bar.com'') 2 True drawsB))
     = ordering (fst (ChallengesFor (exampleEnv examplePolicy) fourAuthority
                        (dnsIdentifier ''foo.org'') 1 False drawsA))
 \<and> map ordering (callSequence (exampleEnv examplePolicy) loadedFourAuthority otherCalls)
     = map ordering (callSequence (exampleEnv examplePolicy) fourAuthority exampleCalls)"
proof -
  note c = example_contract[of examplePolicy]
  note F = four_example_facts
  note T = ChallengesFor_all_four_deterministic[OF c F(1) F(2), of False drawsA]
  from T have c1: "\<exists>shuffled combinations pa'.
       ChallengesFor (exampleEnv examplePolicy) fourAuthority (dnsIdentifier ''foo.org'') 1 False
           drawsA
         = (Some (shuffled, combinations, None), pa') \<and>
       length shuffled = 4 \<and> length combinations = 4"
    by blast
  from T F(3) have c2: "ordering (fst (ChallengesFor (exampleEnv examplePolicy)
                     loadedFourAuthority (dnsIdentifier ''bar.com'') 2 True drawsB))
     = ordering (fst (ChallengesFor (exampleEnv examplePolicy) fourAuthority
                        (dnsIdentifier ''foo.org'') 1 False drawsA))"
    by blast
  from T F(4) have c3: "map ordering
       (callSequence (exampleEnv examplePolicy) loadedFourAuthority otherCalls)
     = map ordering (callSequence (exampleEnv examplePolicy) fourAuthority exampleCalls)"
    by blast
  show ?thesis
    by (intro conjI) (fact c F(1) F(2) c1 c2 c3)+
qed

section \<open>The shuffle is a permutation\<close>

text \<open>
  C10. A call of \<open>ChallengesFor\<close> that gets past the selection with \<open>n\<close>
  selected challenges succeeds, with a generator that keeps the contract of
  \<open>Perm\<close>: the returned challenges are a permutation of the selected ones (the same
  multiset), there are \<open>n\<close> returned combinations, every one a singleton, and the
  indices in them are \<open>0, \<dots>, n - 1\<close>, each exactly once.
\<close>

theorem ChallengesFor_permutes:
  assumes contract: "permContract env"
    and sel: "selectChallenges env pa identifier regID revalidation draws = Inr selected"
  shows "\<exists>shuffled combinations pa'.
           ChallengesFor env pa identifier regID revalidation draws =
             (Some (shuffled, combinations, None), pa') \<and>
           mset shuffled = mset selected \<and>
           length shuffled = length selected \<and>
           length combinations = length selected \<and>
           (\<forall>c\<in>set combinations. \<exists>i. c = [i]) \<and>
           mset (concat combinations) = mset [0..<length selected]"
  by (rule shuffle_permutes[OF contract sel])

lemma example_selection:
  "selectChallenges (exampleEnv examplePolicy) allowListAuthority (dnsIdentifier ''foo.org'') 7 False drawsA
   = Inr [HTTPChallenge01 drawsA 0 [], DNSChallenge01 drawsA 1 []]"
  by code_simp

theorem ChallengesFor_permutes_witness:
  "permContract (exampleEnv examplePolicy)
 \<and> selectChallenges (exampleEnv examplePolicy) allowListAuthority (dnsIdentifier ''foo.org'') 7 False drawsA
     = Inr [HTTPChallenge01 drawsA 0 [], DNSChallenge01 drawsA 1 []]
 \<and> (\<exists>shuffled combinations pa'.
       ChallengesFor (exampleEnv examplePolicy) allowListAuthority (dnsIdentifier ''foo.org'') 7 False drawsA
         = (Some (shuffled, combinations, None), pa') \<and>
       mset shuffled = mset [HTTPChallenge01 drawsA 0 [], DNSChallenge01 drawsA 1 []] \<and>
       length shuffled = 2 \<and> length combinations = 2 \<and>
       mset (concat combinations) = mset [0, 1])"
proof -
  note c = example_contract[of examplePolicy]
  have u: "[0..<length [HTTPChallenge01 drawsA 0 [], DNSChallenge01 drawsA 1 []]] = [0, 1]"
    by (simp add: upt_rec)
  from ChallengesFor_permutes[OF c example_selection]
  have "\<exists>shuffled combinations pa'.
       ChallengesFor (exampleEnv examplePolicy) allowListAuthority (dnsIdentifier ''foo.org'') 7 False drawsA
         = (Some (shuffled, combinations, None), pa') \<and>
       mset shuffled = mset [HTTPChallenge01 drawsA 0 [], DNSChallenge01 drawsA 1 []] \<and>
       length shuffled = 2 \<and> length combinations = 2 \<and>
       mset (concat combinations) = mset [0, 1]"
    unfolding u by (simp add: numeral_2_eq_2) blast
  with c example_selection show ?thesis by blast
qed

end
